theory Spec2Isabelle
  imports Main "HOL-Library.Sublist"
begin

section \<open>Text and the Python primitives the script uses\<close>

text \<open>
  A Python \<open>str\<close> is a sequence of Unicode code points; a code point is a natural number.
  The ASCII literals of the source are written as HOL string literals and converted by
  \<open>ascii\<close>; the few characters a HOL literal cannot hold (backslash, single quote, and the
  non-ASCII characters of the templates) are given by their code point.
  A Python \<open>bytes\<close> object is a HOL \<open>string\<close>: a list of 8-bit characters.
\<close>

type_synonym pystr = "nat list"

definition ascii :: "string \<Rightarrow> pystr" where
  "ascii s = map of_char s"

definition bslash :: nat where "bslash = 0x5C"
definition btick :: nat where "btick = 0x60"
definition dollar :: nat where "dollar = 0x24"
definition squote :: nat where "squote = 0x27"

datatype error = KeyError | UnicodeEncodeError | UnicodeDecodeError

definition bind_e :: "error + 'a \<Rightarrow> ('a \<Rightarrow> error + 'b) \<Rightarrow> error + 'b" where
  "bind_e r f = (case r of Inl e \<Rightarrow> Inl e | Inr x \<Rightarrow> f x)"

text \<open>\<open>d[k]\<close> on a dictionary literal: the value of the key, or \<open>KeyError\<close>.\<close>

definition dict_get :: "('k \<times> 'v) list \<Rightarrow> 'k \<Rightarrow> error + 'v" where
  "dict_get d k = (case map_of d k of None \<Rightarrow> Inl KeyError | Some v \<Rightarrow> Inr v)"

text \<open>
  \<open>s.replace(old, new)\<close>: every non-overlapping occurrence of \<open>old\<close>, found from the left,
  is replaced by \<open>new\<close>. With an empty \<open>old\<close> Python puts \<open>new\<close> before every character
  and at the end.
\<close>

function replace :: "'a list \<Rightarrow> 'a list \<Rightarrow> 'a list \<Rightarrow> 'a list" where
  "replace old new [] = (if old = [] then new else [])"
| "replace old new (c # cs) =
     (if old = [] then new @ c # replace old new cs
      else if prefix old (c # cs) then new @ replace old new (drop (length old) (c # cs))
      else c # replace old new cs)"
  by pat_completeness auto
termination
  by (relation "measure (\<lambda>(old, new, s). length s)") auto

text \<open>\<open>str(n)\<close> of a Python \<open>int\<close>: decimal digits, with a minus sign when negative.\<close>

function str_nat :: "nat \<Rightarrow> pystr" where
  "str_nat n = (if n < 10 then [0x30 + n] else str_nat (n div 10) @ [0x30 + n mod 10])"
  by pat_completeness auto
termination
  by (relation "measure id") auto

declare str_nat.simps [simp del]

definition str_int :: "int \<Rightarrow> pystr" where
  "str_int i = (if i < 0 then 0x2D # str_nat (nat (- i)) else str_nat (nat i))"

section \<open>Presets and templates\<close>

text \<open>
  A preset is the dictionary \<open>PRESETS[name]\<close>: the five keys every entry of the source's
  table has.
\<close>

record preset =
  p_columns :: int
  p_margin_mm :: int
  p_gap_mm :: int
  p_font_px :: int
  p_show_guides :: bool

definition PRESETS :: "(string \<times> preset) list" where
  "PRESETS =
    [(''2-up'', \<lparr>p_columns = 2, p_margin_mm = 12, p_gap_mm = 10, p_font_px = 11, p_show_guides = True\<rparr>),
     (''3-up'', \<lparr>p_columns = 3, p_margin_mm = 12, p_gap_mm = 8, p_font_px = 10, p_show_guides = True\<rparr>),
     (''4-up'', \<lparr>p_columns = 4, p_margin_mm = 10, p_gap_mm = 6, p_font_px = 10, p_show_guides = True\<rparr>)]"

text \<open>The four texts of the dictionary \<open>TEMPLATES\<close>, in the order of the source.\<close>

definition template_blank :: pystr where
  \<open>template_blank =
     []\<close>

definition template_lecture_notes :: pystr where
  \<open>template_lecture_notes =
     ascii ''# Week X '' @ [0x2014] @ ascii '' Topic Title\<newline>'' @
     ascii ''\<newline>'' @
     ascii ''## Key Ideas\<newline>'' @
     ascii ''- Concept 1\<newline>'' @
     ascii ''- Concept 2\<newline>'' @
     ascii ''\<newline>'' @
     ascii ''## Definitions\<newline>'' @
     ascii ''- **Term**: meaning here\<newline>'' @
     ascii ''\<newline>'' @
     ascii ''## Example\<newline>'' @
     ascii ''Let $f(x)=x^2-x$. Then $$f'' @ [squote] @ ascii ''(x)=2x-1$$\<newline>'' @
     ascii ''\<newline>'' @
     ascii ''## Quick Derivation\<newline>'' @
     ascii ''1. Start from ...\<newline>'' @
     ascii ''2. Apply rule ...\<newline>'' @
     ascii ''\<newline>'' @
     ascii ''## Takeaways\<newline>'' @
     ascii ''- Bullet 1\<newline>'' @
     ascii ''- Bullet 2\<newline>''\<close>

definition template_code_snippets :: pystr where
  \<open>template_code_snippets =
     ascii ''# Handy Snippets\<newline>'' @
     ascii ''\<newline>'' @
     ascii ''### Python\<newline>'' @
     ascii ''```python\<newline>'' @
     ascii ''from math import sqrt\<newline>'' @
     ascii ''def mean(xs):\<newline>'' @
     ascii ''    return sum(xs)/len(xs)\<newline>'' @
     ascii ''```\<newline>'' @
     ascii ''\<newline>'' @
     ascii ''### Bash\<newline>'' @
     ascii ''```bash\<newline>'' @
     ascii ''python -m venv .venv && source .venv/bin/activate\<newline>'' @
     ascii ''pip install -r requirements.txt\<newline>'' @
     ascii ''```\<newline>'' @
     ascii ''\<newline>'' @
     ascii ''### SQL\<newline>'' @
     ascii ''```sql\<newline>'' @
     ascii ''SELECT id, AVG(score) AS avg_score\<newline>'' @
     ascii ''FROM results\<newline>'' @
     ascii ''GROUP BY id;\<newline>'' @
     ascii ''```\<newline>''\<close>

definition template_formula_sheet :: pystr where
  \<open>template_formula_sheet =
     ascii ''# Formula Sheet\<newline>'' @
     ascii ''\<newline>'' @
     ascii ''## Algebra\<newline>'' @
     ascii ''$ (a+b)^2 = a^2 + 2ab + b^2 $'' @ [bslash] @ ascii ''\<newline>'' @
     ascii ''$ (a-b)^2 = a^2 - 2ab + b^2 $'' @ [bslash] @ ascii ''\<newline>'' @
     ascii ''$ a^2-b^2=(a-b)(a+b) $\<newline>'' @
     ascii ''\<newline>'' @
     ascii ''## Calculus\<newline>'' @
     ascii ''$'' @ [bslash] @ ascii ''dfrac{d}{dx} x^n = nx^{n-1}$'' @ [bslash] @ ascii ''\<newline>'' @
     ascii ''$'' @ [bslash] @ ascii ''int_0^1 x^2'' @ [bslash] @ ascii '',dx = 1/3$\<newline>'' @
     ascii ''\<newline>'' @
     ascii ''## Trig\<newline>'' @
     ascii ''$'' @ [bslash] @ ascii ''sin^2 x + '' @ [bslash] @ ascii ''cos^2 x = 1$\<newline>''\<close>

text \<open>
  The text the editor starts with. In the source the backslash at the end of the line
  \<open>Inline: ...\<close> joins that line with the next one.
\<close>

definition default_md :: pystr where
  \<open>default_md =
     ascii ''# A4 Markdown Writer (Python)\<newline>'' @
     ascii ''\<newline>'' @
     ascii ''Switch orientation, pick columns, then Print '' @ [0x2192] @ ascii '' Save as PDF.\<newline>'' @
     ascii ''\<newline>'' @
     ascii ''---\<newline>'' @
     ascii ''\<newline>'' @
     ascii ''## Math\<newline>'' @
     ascii ''Inline: $E=mc^2$  Display: $$'' @ [bslash] @ ascii ''int_0^1 x^2'' @ [bslash] @ ascii '',dx=1/3$$\<newline>'' @
     ascii ''\<newline>'' @
     ascii ''## Code\<newline>'' @
     ascii ''```python\<newline>'' @
     ascii ''import math\<newline>'' @
     ascii ''print("hello", math.pi)\<newline>'' @
     ascii ''```\<newline>'' @
     ascii ''\<newline>'' @
     ascii ''## Lists\<newline>'' @
     ascii ''- One\<newline>'' @
     ascii ''- Two\<newline>'' @
     ascii ''- Three\<newline>''\<close>

definition TEMPLATES :: "(string \<times> pystr) list" where
  "TEMPLATES =
    [(''Blank'', template_blank),
     (''Lecture Notes'', template_lecture_notes),
     (''Code Snippets'', template_code_snippets),
     (''Formula Sheet'', template_formula_sheet)]"

section \<open>The configuration store\<close>

text \<open>
  \<open>st.session_state\<close> is a dictionary that lives across runs of the script. The script uses
  eight keys, each bound to one widget, so the state is a record with one optional field
  per key: \<open>None\<close> when the key is not in the dictionary yet.
\<close>

record session =
  ss_orientation :: "pystr option"
  ss_columns :: "int option"
  ss_margin_mm :: "int option"
  ss_gap_mm :: "int option"
  ss_font_px :: "int option"
  ss_show_guides :: "bool option"
  ss_show_print_button :: "bool option"
  ss_md :: "pystr option"

text \<open>\<open>st.session_state.update(PRESETS[name])\<close>: the five keys of the preset are stored.\<close>

definition update :: "preset \<Rightarrow> session \<Rightarrow> session" where
  "update p ss =
     ss\<lparr>ss_columns := Some (p_columns p), ss_margin_mm := Some (p_margin_mm p),
        ss_gap_mm := Some (p_gap_mm p), ss_font_px := Some (p_font_px p),
        ss_show_guides := Some (p_show_guides p)\<rparr>"

text \<open>
  What one run of the script reads from the user: the buttons that were pressed and the
  entry of the template selector (a widget without a key, so not part of the session).
\<close>

record inputs =
  btn_2up :: bool
  btn_3up :: bool
  btn_4up :: bool
  selected_template :: string
  load_replace :: bool
  load_append :: bool
  btn_download :: bool

text \<open>The three preset buttons, in the order the script tests them.\<close>

definition apply_preset :: "string \<Rightarrow> session \<Rightarrow> error + session" where
  "apply_preset name ss = bind_e (dict_get PRESETS name) (\<lambda>p. Inr (update p ss))"

definition preset_buttons :: "inputs \<Rightarrow> session \<Rightarrow> error + session" where
  "preset_buttons inp ss =
     bind_e (if btn_2up inp then apply_preset ''2-up'' ss else Inr ss) (\<lambda>ss1.
     bind_e (if btn_3up inp then apply_preset ''3-up'' ss1 else Inr ss1) (\<lambda>ss2.
     if btn_4up inp then apply_preset ''4-up'' ss2 else Inr ss2))"

text \<open>
  The values the sidebar widgets return in a run: the local variables \<open>orientation\<close>,
  \<open>columns\<close>, \<open>margin_mm\<close>, \<open>gap_mm\<close>, \<open>font_px\<close>, \<open>show_guides\<close> and
  \<open>show_print_button\<close> of the script.
\<close>

record config =
  orientation :: pystr
  columns :: int
  margin_mm :: int
  gap_mm :: int
  font_px :: int
  show_guides :: bool
  show_print_button :: bool

text \<open>
  A widget with a key returns the value the session holds under the key, and its default
  when the key is absent; after the call the key is in the session. The bounds of a slider
  restrict what the user can pick in the browser; the call itself is given the stored value.
\<close>

definition widget :: "'a option \<Rightarrow> 'a \<Rightarrow> 'a" where
  "widget stored dflt = (case stored of None \<Rightarrow> dflt | Some v \<Rightarrow> v)"

definition sidebar :: "session \<Rightarrow> config \<times> session" where
  "sidebar ss =
     (let cfg = \<lparr>orientation = widget (ss_orientation ss) (ascii ''portrait''),
                 columns = widget (ss_columns ss) 2,
                 margin_mm = widget (ss_margin_mm ss) 12,
                 gap_mm = widget (ss_gap_mm ss) 8,
                 font_px = widget (ss_font_px ss) 11,
                 show_guides = widget (ss_show_guides ss) True,
                 show_print_button = widget (ss_show_print_button ss) True\<rparr>
      in (cfg, ss\<lparr>ss_orientation := Some (orientation cfg), ss_columns := Some (columns cfg),
                  ss_margin_mm := Some (margin_mm cfg), ss_gap_mm := Some (gap_mm cfg),
                  ss_font_px := Some (font_px cfg), ss_show_guides := Some (show_guides cfg),
                  ss_show_print_button := Some (show_print_button cfg)\<rparr>))"

text \<open>
  The sliders of the sidebar: key, lower bound, upper bound. A slider moved by the user
  stores a value between its bounds; the browser control offers no other.
\<close>

datatype slider_key = Columns | Margin_mm | Gap_mm | Font_px

fun slider_bounds :: "slider_key \<Rightarrow> int \<times> int" where
  "slider_bounds Columns = (1, 4)"
| "slider_bounds Margin_mm = (5, 25)"
| "slider_bounds Gap_mm = (4, 20)"
| "slider_bounds Font_px = (9, 16)"

fun store_slider :: "slider_key \<Rightarrow> int \<Rightarrow> session \<Rightarrow> session" where
  "store_slider Columns v ss = ss\<lparr>ss_columns := Some v\<rparr>"
| "store_slider Margin_mm v ss = ss\<lparr>ss_margin_mm := Some v\<rparr>"
| "store_slider Gap_mm v ss = ss\<lparr>ss_gap_mm := Some v\<rparr>"
| "store_slider Font_px v ss = ss\<lparr>ss_font_px := Some v\<rparr>"

definition move_slider :: "slider_key \<Rightarrow> int \<Rightarrow> session \<Rightarrow> session option" where
  "move_slider k v ss =
     (if fst (slider_bounds k) \<le> v \<and> v \<le> snd (slider_bounds k)
      then Some (store_slider k v ss) else None)"


text \<open>
  The template buttons: the session gets the default text when it has none, then
  \<open>Load (replace)\<close> stores the selected template and, only when that button is not
  pressed, \<open>Load (append)\<close> stores the old text followed by \<open>"" + TEMPLATES[selected]\<close>.
\<close>

definition load_template :: "inputs \<Rightarrow> session \<Rightarrow> error + session" where
  "load_template inp ss =
     (let ss1 = (if ss_md ss = None then ss\<lparr>ss_md := Some default_md\<rparr> else ss) in
      if load_replace inp then
        bind_e (dict_get TEMPLATES (selected_template inp)) (\<lambda>t. Inr (ss1\<lparr>ss_md := Some t\<rparr>))
      else if load_append inp then
        bind_e (dict_get TEMPLATES (selected_template inp)) (\<lambda>t.
          Inr (ss1\<lparr>ss_md := Some (widget (ss_md ss1) default_md @ ([] @ t))\<rparr>))
      else Inr ss1)"

section \<open>The document assembler\<close>

definition A4_W :: int where "A4_W = 210"
definition A4_H :: int where "A4_H = 297"

definition page_w :: "pystr \<Rightarrow> int" where
  "page_w orient = (if orient = ascii ''portrait'' then A4_W else A4_H)"

definition page_h :: "pystr \<Rightarrow> int" where
  "page_h orient = (if orient = ascii ''portrait'' then A4_H else A4_W)"

definition rule_css :: "bool \<Rightarrow> pystr" where
  "rule_css guides =
     ascii ''column-rule: '' @ (if guides then ascii ''1px solid #ddd'' else ascii ''none'') @ ascii '';''"

text \<open>
  The escape for the JavaScript template literal: three \<open>replace\<close> calls in the source's
  order. The raw string \<open>r"\\\\"\<close> is four backslashes; \<open>r"\`"\<close> and \<open>r"\$"\<close> are a backslash
  and the character.
\<close>

definition md_js :: "pystr \<Rightarrow> pystr" where
  "md_js md =
     replace [dollar] [bslash, dollar]
       (replace [btick] [bslash, btick]
         (replace [bslash] [bslash, bslash, bslash, bslash] md))"

text \<open>The fixed text of the f-string \<open>html_doc\<close>, cut at its twelve placeholders.\<close>

definition html_seg0 :: pystr where
  \<open>html_seg0 =
     ascii ''\<newline>'' @
     ascii ''<!doctype html>\<newline>'' @
     ascii ''<html>\<newline>'' @
     ascii ''<head>\<newline>'' @
     ascii ''  <meta charset="utf-8" />\<newline>'' @
     ascii ''  <meta name="viewport" content="width=device-width, initial-scale=1" />\<newline>'' @
     ascii ''  <link rel="stylesheet" href="https://cdnjs.cloudflare.com/ajax/libs/highlight.js/11.9.0/styles/github.min.css"/>\<newline>'' @
     ascii ''  <script src="https://cdnjs.cloudflare.com/ajax/libs/highlight.js/11.9.0/highlight.min.js"></script>\<newline>'' @
     ascii ''  <script src="https://cdn.jsdelivr.net/npm/dompurify@3.1.7/dist/purify.min.js"></script>\<newline>'' @
     ascii ''  <script src="https://cdn.jsdelivr.net/npm/marked/marked.min.js"></script>\<newline>'' @
     ascii ''  <script>\<newline>'' @
     ascii ''    window.MathJax = { tex: { inlineMath: [['' @ [squote] @ ascii ''$'' @ [squote] @ ascii '','' @ [squote] @ ascii ''$'' @ [squote] @ ascii ''], ['' @ [squote] @ [bslash] @ ascii ''('' @ [squote] @ ascii '','' @ [squote] @ [bslash] @ ascii '')'' @ [squote] @ ascii '']] }, svg: {fontCache: '' @ [squote] @ ascii ''global'' @ [squote] @ ascii ''} };\<newline>'' @
     ascii ''  </script>\<newline>'' @
     ascii ''  <script src="https://cdn.jsdelivr.net/npm/mathjax@3/es5/tex-svg.js"></script>\<newline>'' @
     ascii ''  <style>\<newline>'' @
     ascii ''    :root {\<newline>'' @
     ascii ''      --page-w-mm: ''\<close>

definition html_seg1 :: pystr where
  \<open>html_seg1 =
     ascii ''mm;\<newline>'' @
     ascii ''      --page-h-mm: ''\<close>

definition html_seg2 :: pystr where
  \<open>html_seg2 =
     ascii ''mm;\<newline>'' @
     ascii ''      --margin-mm: ''\<close>

definition html_seg3 :: pystr where
  \<open>html_seg3 =
     ascii ''mm;\<newline>'' @
     ascii ''      --gap-mm: ''\<close>

definition html_seg4 :: pystr where
  \<open>html_seg4 =
     ascii ''mm;\<newline>'' @
     ascii ''      --font-px: ''\<close>

definition html_seg5 :: pystr where
  \<open>html_seg5 =
     ascii ''px;\<newline>'' @
     ascii ''      --cols: ''\<close>

definition html_seg6 :: pystr where
  \<open>html_seg6 =
     ascii '';\<newline>'' @
     ascii ''    }\<newline>'' @
     ascii ''    @page { size: A4 ''\<close>

definition html_seg7 :: pystr where
  \<open>html_seg7 =
     ascii ''; margin: var(--margin-mm); }\<newline>'' @
     ascii ''    html, body { height: 100%; }\<newline>'' @
     ascii ''    body { background: #f4f5f7; margin: 0; }\<newline>'' @
     ascii ''    .toolbar { position: sticky; top: 0; background: #fff; border-bottom: 1px solid #e5e7eb; padding: 8px 12px; z-index: 10; font-family: system-ui, -apple-system, Segoe UI, Roboto, Helvetica, Arial; }\<newline>'' @
     ascii ''    .page-shell { width: var(--page-w-mm); height: var(--page-h-mm); margin: 24px auto; background: #fff; box-shadow: 0 10px 25px rgba(0,0,0,.08); overflow: hidden; }\<newline>'' @
     ascii ''    .page-content { box-sizing: border-box; padding: var(--margin-mm); font-size: var(--font-px); line-height: 1.45; column-count: var(--cols); column-gap: var(--gap-mm); ''\<close>

definition html_seg8 :: pystr where
  \<open>html_seg8 =
     ascii '' font-family: system-ui, -apple-system, Segoe UI, Roboto, Helvetica, Arial; }\<newline>'' @
     ascii ''    .page-content h1, .page-content h2, .page-content h3 { break-inside: avoid; }\<newline>'' @
     ascii ''    .page-content pre, .page-content code, .page-content img, .page-content table { break-inside: avoid; max-width: 100%; }\<newline>'' @
     ascii ''    .page-content pre { background: #f6f8fa; padding: 10px; border-radius: 6px; overflow: auto; }\<newline>'' @
     ascii ''    .page-content code { font-family: ui-monospace, SFMono-Regular, Menlo, Consolas, monospace; }\<newline>'' @
     ascii ''    @media print { body { -webkit-print-color-adjust: exact; print-color-adjust: exact; background: #fff; } .toolbar { display: none; } .page-shell { box-shadow: none; margin: 0 auto; } }\<newline>'' @
     ascii ''  </style>\<newline>'' @
     ascii ''</head>\<newline>'' @
     ascii ''<body>\<newline>'' @
     ascii ''  <div class="toolbar">A4 preview '' @ [0x2022] @ ascii '' ''\<close>

definition html_seg9 :: pystr where
  \<open>html_seg9 =
     ascii '' '' @ [0x2022] @ ascii '' ''\<close>

definition html_seg10 :: pystr where
  \<open>html_seg10 =
     ascii '' column(s)</div>\<newline>'' @
     ascii ''  <div class="page-shell"><div id="content" class="page-content"></div></div>\<newline>'' @
     ascii ''  <script>\<newline>'' @
     ascii ''    const raw = `''\<close>

definition html_seg11 :: pystr where
  \<open>html_seg11 =
     ascii ''`;\<newline>'' @
     ascii ''    const html = DOMPurify.sanitize(marked.parse(raw));\<newline>'' @
     ascii ''    const container = document.getElementById('' @ [squote] @ ascii ''content'' @ [squote] @ ascii '');\<newline>'' @
     ascii ''    container.innerHTML = html;\<newline>'' @
     ascii ''    document.querySelectorAll('' @ [squote] @ ascii ''pre code'' @ [squote] @ ascii '').forEach(el => window.hljs.highlightElement(el));\<newline>'' @
     ascii ''    if (window.MathJax && window.MathJax.typeset) { window.MathJax.typeset([container]); }\<newline>'' @
     ascii ''  </script>\<newline>'' @
     ascii ''</body>\<newline>'' @
     ascii ''</html>\<newline>''\<close>

definition html_doc :: "config \<Rightarrow> pystr \<Rightarrow> pystr" where
  "html_doc cfg md =
     html_seg0 @ str_int (page_w (orientation cfg)) @
     html_seg1 @ str_int (page_h (orientation cfg)) @
     html_seg2 @ str_int (margin_mm cfg) @
     html_seg3 @ str_int (gap_mm cfg) @
     html_seg4 @ str_int (font_px cfg) @
     html_seg5 @ str_int (columns cfg) @
     html_seg6 @ orientation cfg @
     html_seg7 @ rule_css (show_guides cfg) @
     html_seg8 @ orientation cfg @
     html_seg9 @ str_int (columns cfg) @
     html_seg10 @ md_js md @
     html_seg11"


section \<open>The delivery surface\<close>

text \<open>
  \<open>html_doc.encode("utf-8")\<close>: one to four bytes for each code point. Python raises
  \<open>UnicodeEncodeError\<close> on a surrogate; a number from \<open>0x110000\<close> on is no code point at all.
\<close>

definition utf8_char :: "nat \<Rightarrow> error + string" where
  "utf8_char c =
     (if c < 0x80 then Inr [char_of c]
      else if c < 0x800 then Inr [char_of (0xC0 + c div 0x40), char_of (0x80 + c mod 0x40)]
      else if 0xD800 \<le> c \<and> c \<le> 0xDFFF then Inl UnicodeEncodeError
      else if c < 0x10000 then
        Inr [char_of (0xE0 + c div 0x1000), char_of (0x80 + c div 0x40 mod 0x40),
             char_of (0x80 + c mod 0x40)]
      else if c < 0x110000 then
        Inr [char_of (0xF0 + c div 0x40000), char_of (0x80 + c div 0x1000 mod 0x40),
             char_of (0x80 + c div 0x40 mod 0x40), char_of (0x80 + c mod 0x40)]
      else Inl UnicodeEncodeError)"

fun encode_utf8 :: "pystr \<Rightarrow> error + string" where
  "encode_utf8 [] = Inr []"
| "encode_utf8 (c # cs) =
     bind_e (utf8_char c) (\<lambda>b. bind_e (encode_utf8 cs) (\<lambda>bs. Inr (b @ bs)))"

text \<open>
  \<open>bytes.decode()\<close>, the strict UTF-8 decoder: a wrong lead or continuation byte, an
  overlong form, a surrogate and a value from \<open>0x110000\<close> on raise \<open>UnicodeDecodeError\<close>.
\<close>

definition is_cont :: "char \<Rightarrow> bool" where
  "is_cont b = (0x80 \<le> (of_char b :: nat) \<and> (of_char b :: nat) < 0xC0)"

definition cont_bits :: "char \<Rightarrow> nat" where
  "cont_bits b = of_char b - 0x80"

definition cons_e :: "'a \<Rightarrow> error + 'a list \<Rightarrow> error + 'a list" where
  "cons_e x r = bind_e r (\<lambda>xs. Inr (x # xs))"

fun decode_utf8 :: "string \<Rightarrow> error + pystr" where
  "decode_utf8 [] = Inr []"
| "decode_utf8 (b # bs) =
     (let x = (of_char b :: nat) in
      if x < 0x80 then cons_e x (decode_utf8 bs)
      else if 0xC0 \<le> x \<and> x < 0xE0 then
        (case bs of
           b1 # r \<Rightarrow>
             (let c = (x - 0xC0) * 0x40 + cont_bits b1 in
              if is_cont b1 \<and> 0x80 \<le> c then cons_e c (decode_utf8 r)
              else Inl UnicodeDecodeError)
         | _ \<Rightarrow> Inl UnicodeDecodeError)
      else if 0xE0 \<le> x \<and> x < 0xF0 then
        (case bs of
           b1 # b2 # r \<Rightarrow>
             (let c = (x - 0xE0) * 0x1000 + cont_bits b1 * 0x40 + cont_bits b2 in
              if is_cont b1 \<and> is_cont b2 \<and> 0x800 \<le> c \<and> \<not> (0xD800 \<le> c \<and> c \<le> 0xDFFF)
              then cons_e c (decode_utf8 r)
              else Inl UnicodeDecodeError)
         | _ \<Rightarrow> Inl UnicodeDecodeError)
      else if 0xF0 \<le> x \<and> x < 0xF8 then
        (case bs of
           b1 # b2 # b3 # r \<Rightarrow>
             (let c = (x - 0xF0) * 0x40000 + cont_bits b1 * 0x1000 + cont_bits b2 * 0x40
                      + cont_bits b3 in
              if is_cont b1 \<and> is_cont b2 \<and> is_cont b3 \<and> 0x10000 \<le> c \<and> c < 0x110000
              then cons_e c (decode_utf8 r)
              else Inl UnicodeDecodeError)
         | _ \<Rightarrow> Inl UnicodeDecodeError)
      else Inl UnicodeDecodeError)"

text \<open>
  \<open>base64.b64encode\<close>: three bytes give four characters of the standard alphabet; one or
  two bytes left at the end give two or three characters and \<open>=\<close> padding.
\<close>

definition b64_alphabet :: string where
  "b64_alphabet = ''ABCDEFGHIJKLMNOPQRSTUVWXYZabcdefghijklmnopqrstuvwxyz0123456789+/''"

definition b64_char :: "nat \<Rightarrow> char" where
  "b64_char i = b64_alphabet ! (i mod 64)"

fun b64encode :: "string \<Rightarrow> string" where
  "b64encode [] = []"
| "b64encode [a] =
     (let x = (of_char a :: nat) in
      [b64_char (x div 4), b64_char (x mod 4 * 16), CHR ''='', CHR ''=''])"
| "b64encode [a, b] =
     (let x = (of_char a :: nat); y = (of_char b :: nat) in
      [b64_char (x div 4), b64_char (x mod 4 * 16 + y div 16), b64_char (y mod 16 * 4),
       CHR ''=''])"
| "b64encode (a # b # c # rest) =
     (let x = (of_char a :: nat); y = (of_char b :: nat); z = (of_char c :: nat) in
      [b64_char (x div 4), b64_char (x mod 4 * 16 + y div 16),
       b64_char (y mod 16 * 4 + z div 64), b64_char (z mod 64)] @ b64encode rest)"

text \<open>
  The download link: the document's UTF-8 bytes, base64 encoded, decoded to a \<open>str\<close> and
  put behind the \<open>data:text/html;base64,\<close> prefix in a Markdown link.
\<close>

definition download_href :: "pystr \<Rightarrow> error + pystr" where
  "download_href doc =
     bind_e (encode_utf8 doc) (\<lambda>b.
     bind_e (decode_utf8 (b64encode b)) (\<lambda>s.
     Inr (ascii ''data:text/html;base64,'' @ s)))"

definition download_link :: "pystr \<Rightarrow> error + pystr" where
  "download_link doc =
     bind_e (download_href doc) (\<lambda>href.
     Inr (ascii ''[Download the HTML file]('' @ href @ ascii '')''))"

text \<open>
  One run of the script: the preset buttons, the sidebar widgets, the template buttons, the
  text area (which returns the session's text), the document, and the link when the
  download button was pressed. The result is the session after the run, the document shown
  in the preview and the link.
\<close>

definition run :: "inputs \<Rightarrow> session \<Rightarrow> error + (session \<times> pystr \<times> pystr option)" where
  "run inp ss =
     bind_e (preset_buttons inp ss) (\<lambda>ss1.
     (case sidebar ss1 of (cfg, ss2) \<Rightarrow>
     bind_e (load_template inp ss2) (\<lambda>ss3.
     (let md = widget (ss_md ss3) default_md;
          doc = html_doc cfg md
      in if btn_download inp
         then bind_e (download_link doc) (\<lambda>l. Inr (ss3, doc, Some l))
         else Inr (ss3, doc, None)))))"

section \<open>What the properties are stated with\<close>

subsection \<open>The bounds of the layout configuration\<close>

definition valid_config :: "config \<Rightarrow> bool" where
  "valid_config cfg =
     (1 \<le> columns cfg \<and> columns cfg \<le> 4 \<and> 5 \<le> margin_mm cfg \<and> margin_mm cfg \<le> 25 \<and>
      4 \<le> gap_mm cfg \<and> gap_mm cfg \<le> 20 \<and> 9 \<le> font_px cfg \<and> font_px cfg \<le> 16)"

text \<open>A stored slider value lies between the slider's bounds; an absent key is no value.\<close>

definition in_bounds :: "slider_key \<Rightarrow> int option \<Rightarrow> bool" where
  "in_bounds k stored =
     (case stored of None \<Rightarrow> True
      | Some v \<Rightarrow> fst (slider_bounds k) \<le> v \<and> v \<le> snd (slider_bounds k))"

definition store_ok :: "session \<Rightarrow> bool" where
  "store_ok ss =
     (in_bounds Columns (ss_columns ss) \<and> in_bounds Margin_mm (ss_margin_mm ss) \<and>
      in_bounds Gap_mm (ss_gap_mm ss) \<and> in_bounds Font_px (ss_font_px ss))"

definition empty_session :: session where
  "empty_session =
     \<lparr>ss_orientation = None, ss_columns = None, ss_margin_mm = None, ss_gap_mm = None,
      ss_font_px = None, ss_show_guides = None, ss_show_print_button = None, ss_md = None\<rparr>"

subsection \<open>Reading a value back out of the style sheet\<close>

text \<open>
  \<open>find_after key s\<close> is the text that follows the first occurrence of \<open>key\<close> in \<open>s\<close>.
  The value of the CSS declaration \<open>name: value;\<close> is the text between the first
  \<open>name: \<close> and the next semicolon; a number is read from it once its unit is taken off.
\<close>

fun find_after :: "pystr \<Rightarrow> pystr \<Rightarrow> pystr option" where
  "find_after key [] = (if key = [] then Some [] else None)"
| "find_after key (c # cs) =
     (if prefix key (c # cs) then Some (drop (length key) (c # cs)) else find_after key cs)"

definition css_value :: "string \<Rightarrow> pystr \<Rightarrow> pystr option" where
  "css_value name doc =
     map_option (takeWhile (\<lambda>c. c \<noteq> 0x3B)) (find_after (ascii name @ ascii '': '') doc)"

definition is_digit :: "nat \<Rightarrow> bool" where
  "is_digit c = (0x30 \<le> c \<and> c \<le> 0x39)"

definition parse_nat :: "pystr \<Rightarrow> nat option" where
  "parse_nat s =
     (if s \<noteq> [] \<and> list_all is_digit s then Some (foldl (\<lambda>n c. 10 * n + (c - 0x30)) 0 s)
      else None)"

definition parse_int :: "pystr \<Rightarrow> int option" where
  "parse_int s =
     (case s of
        c # cs \<Rightarrow>
          (if c = 0x2D then map_option (\<lambda>n. - int n) (parse_nat cs)
           else map_option int (parse_nat s))
      | [] \<Rightarrow> None)"

definition css_number :: "string \<Rightarrow> string \<Rightarrow> pystr \<Rightarrow> int option" where
  "css_number name unit doc =
     (case css_value name doc of
        None \<Rightarrow> None
      | Some v \<Rightarrow>
          (if suffix (ascii unit) v then parse_int (take (length v - length unit) v)
           else None))"

subsection \<open>How JavaScript reads a template literal\<close>




subsection \<open>How HTML reads the text of a script element\<close>








text \<open>
  What the three replacements of \<open>md_js\<close> do to one character, and the characters they
  leave as they are.
\<close>

definition esc :: "nat \<Rightarrow> pystr" where
  "esc c = (if c = bslash then [bslash, bslash, bslash, bslash]
            else if c = btick then [bslash, btick]
            else if c = dollar then [bslash, dollar] else [c])"


subsection \<open>Reading the download link back\<close>

text \<open>
  The decoder of base64: four characters give three bytes; \<open>=\<close> padding is accepted in the
  last group only.
\<close>

fun index_of :: "'a \<Rightarrow> 'a list \<Rightarrow> nat option" where
  "index_of x [] = None"
| "index_of x (y # ys) = (if x = y then Some 0 else map_option Suc (index_of x ys))"

definition b64_index :: "char \<Rightarrow> nat option" where
  "b64_index c = index_of c b64_alphabet"

fun b64decode :: "string \<Rightarrow> string option" where
  "b64decode [] = Some []"
| "b64decode (a # b # c # d # rest) =
     (case (b64_index a, b64_index b) of
        (Some i, Some j) \<Rightarrow>
          (if rest = [] \<and> c = CHR ''='' \<and> d = CHR ''='' then Some [char_of (i * 4 + j div 16)]
           else
             (case b64_index c of
                Some k \<Rightarrow>
                  (if rest = [] \<and> d = CHR ''='' then
                     Some [char_of (i * 4 + j div 16), char_of (j mod 16 * 16 + k div 4)]
                   else
                     (case b64_index d of
                        Some l \<Rightarrow>
                          map_option
                            (\<lambda>r. [char_of (i * 4 + j div 16), char_of (j mod 16 * 16 + k div 4),
                                  char_of (k mod 4 * 64 + l)] @ r)
                            (b64decode rest)
                      | None \<Rightarrow> None))
              | None \<Rightarrow> None))
      | _ \<Rightarrow> None)"
| "b64decode _ = None"

text \<open>The payload of a link: the text between the link's fixed prefix and its closing parenthesis.\<close>

definition link_payload :: "pystr \<Rightarrow> pystr option" where
  "link_payload link =
     (let pre = ascii ''[Download the HTML file](data:text/html;base64,'' in
      if prefix pre link \<and> suffix (ascii '')'') link
      then Some (take (length link - length pre - 1) (drop (length pre) link))
      else None)"

text \<open>A text of Unicode scalar values: code points, none of them a surrogate.\<close>

definition scalar_value :: "nat \<Rightarrow> bool" where
  "scalar_value c = (c < 0x110000 \<and> \<not> (0xD800 \<le> c \<and> c \<le> 0xDFFF))"

definition scalar_text :: "pystr \<Rightarrow> bool" where
  "scalar_text s = list_all scalar_value s"

section \<open>Properties\<close>

subsection \<open>Helper facts\<close>

lemma replace_single:
  "replace [a] new s = concat (map (\<lambda>c. if c = a then new else [c]) s)"
  by (induction s) auto

lemma map_of_TEMPLATES:
  "map_of TEMPLATES k =
     (if k = ''Blank'' then Some template_blank
      else if k = ''Lecture Notes'' then Some template_lecture_notes
      else if k = ''Code Snippets'' then Some template_code_snippets
      else if k = ''Formula Sheet'' then Some template_formula_sheet
      else None)"
  by (simp add: TEMPLATES_def)

subsection \<open>Page dimensions\<close>

text \<open>
  C3. The page is A4: orientation \<open>portrait\<close> gives a width of 210 mm and a height of 297 mm,
  orientation \<open>landscape\<close> gives a width of 297 mm and a height of 210 mm; for every
  configuration the two dimensions are one of these two pairs, chosen by the orientation.
\<close>

theorem page_dimensions:
  "page_w (ascii ''portrait'') = 210 \<and> page_h (ascii ''portrait'') = 297 \<and>
   page_w (ascii ''landscape'') = 297 \<and> page_h (ascii ''landscape'') = 210 \<and>
   (page_w (orientation cfg), page_h (orientation cfg)) =
     (if orientation cfg = ascii ''portrait'' then (210, 297) else (297, 210))"
  by (simp add: page_w_def page_h_def A4_W_def A4_H_def ascii_def)

subsection \<open>Presets\<close>

text \<open>
  C4. Applying preset \<open>2-up\<close> stores columns 2, margin 12, gap 10, font 11 and guides on;
  \<open>3-up\<close> stores columns 3, margin 12, gap 8, font 10 and guides on; \<open>4-up\<close> stores
  columns 4, margin 10, gap 6, font 10 and guides on. The other keys of the session keep
  their values, and the widgets of the same run return the stored values.
\<close>

theorem presets_applied:
  "apply_preset ''2-up'' ss =
     Inr (ss\<lparr>ss_columns := Some 2, ss_margin_mm := Some 12, ss_gap_mm := Some 10,
             ss_font_px := Some 11, ss_show_guides := Some True\<rparr>) \<and>
   apply_preset ''3-up'' ss =
     Inr (ss\<lparr>ss_columns := Some 3, ss_margin_mm := Some 12, ss_gap_mm := Some 8,
             ss_font_px := Some 10, ss_show_guides := Some True\<rparr>) \<and>
   apply_preset ''4-up'' ss =
     Inr (ss\<lparr>ss_columns := Some 4, ss_margin_mm := Some 10, ss_gap_mm := Some 6,
             ss_font_px := Some 10, ss_show_guides := Some True\<rparr>) \<and>
   (let cfg = fst (sidebar (update p ss))
    in columns cfg = p_columns p \<and> margin_mm cfg = p_margin_mm p \<and> gap_mm cfg = p_gap_mm p \<and>
       font_px cfg = p_font_px p \<and> show_guides cfg = p_show_guides p)"
  by (simp add: apply_preset_def dict_get_def PRESETS_def bind_e_def update_def sidebar_def
      widget_def Let_def)

subsection \<open>Template loading\<close>

lemma load_template_cases:
  "load_template inp ss =
     (if load_replace inp \<or> load_append inp then
        (case map_of TEMPLATES (selected_template inp) of
           None \<Rightarrow> Inl KeyError
         | Some t \<Rightarrow>
             Inr (ss\<lparr>ss_md := Some (if load_replace inp then t
                                     else widget (ss_md ss) default_md @ t)\<rparr>))
      else Inr (ss\<lparr>ss_md := Some (widget (ss_md ss) default_md)\<rparr>))"
  by (cases "ss_md ss") (auto simp: load_template_def bind_e_def dict_get_def widget_def Let_def split: option.splits)

text \<open>
  C5. Load (append), when Load (replace) is not pressed: for every prior text (the default
  text when the session has none yet, and also the empty text) and every template of the
  selector, the new text is the prior text followed by the whole template text; its
  length is the sum of the two lengths.
\<close>

theorem load_append_concat:
  assumes "selected_template inp \<in> set (map fst TEMPLATES)"
    and "load_append inp" and "\<not> load_replace inp"
  shows "\<exists>t. map_of TEMPLATES (selected_template inp) = Some t \<and>
           load_template inp ss = Inr (ss\<lparr>ss_md := Some (widget (ss_md ss) default_md @ t)\<rparr>) \<and>
           length (widget (ss_md ss) default_md @ t) = length (widget (ss_md ss) default_md) + length t"
proof -
  from assms(1) obtain t where t: "map_of TEMPLATES (selected_template inp) = Some t"
    by (auto simp: TEMPLATES_def)
  with assms(2,3) show ?thesis
    by (simp add: load_template_cases)
qed

theorem load_append_concat_witness:
  "selected_template \<lparr>btn_2up = False, btn_3up = False, btn_4up = False,
      selected_template = ''Code Snippets'', load_replace = False, load_append = True,
      btn_download = False\<rparr> \<in> set (map fst TEMPLATES) \<and>
   load_append \<lparr>btn_2up = False, btn_3up = False, btn_4up = False,
      selected_template = ''Code Snippets'', load_replace = False, load_append = True,
      btn_download = False\<rparr> \<and>
   \<not> load_replace \<lparr>btn_2up = False, btn_3up = False, btn_4up = False,
      selected_template = ''Code Snippets'', load_replace = False, load_append = True,
      btn_download = False\<rparr> \<and>
   load_template \<lparr>btn_2up = False, btn_3up = False, btn_4up = False,
      selected_template = ''Code Snippets'', load_replace = False, load_append = True,
      btn_download = False\<rparr> (empty_session\<lparr>ss_md := Some []\<rparr>)
     = Inr (empty_session\<lparr>ss_md := Some template_code_snippets\<rparr>)"
  using load_append_concat [of "\<lparr>btn_2up = False, btn_3up = False, btn_4up = False,
      selected_template = ''Code Snippets'', load_replace = False, load_append = True,
      btn_download = False\<rparr>" "empty_session\<lparr>ss_md := Some []\<rparr>"]
  by (simp add: map_of_TEMPLATES widget_def TEMPLATES_def)

text \<open>
  C6. Load (replace) with the template \<open>Blank\<close> selected: whatever the prior text, the new
  text is the empty string.
\<close>

theorem load_replace_blank:
  assumes "load_replace inp" and "selected_template inp = ''Blank''"
  shows "load_template inp ss = Inr (ss\<lparr>ss_md := Some []\<rparr>)"
  using assms by (simp add: load_template_cases map_of_TEMPLATES template_blank_def)

theorem load_replace_blank_witness:
  "load_template \<lparr>btn_2up = False, btn_3up = False, btn_4up = False,
      selected_template = ''Blank'', load_replace = True, load_append = False,
      btn_download = False\<rparr> (empty_session\<lparr>ss_md := Some (ascii ''# old notes'')\<rparr>)
     = Inr (empty_session\<lparr>ss_md := Some []\<rparr>)"
  using load_replace_blank [of "\<lparr>btn_2up = False, btn_3up = False, btn_4up = False,
      selected_template = ''Blank'', load_replace = True, load_append = False,
      btn_download = False\<rparr>" "empty_session\<lparr>ss_md := Some (ascii ''# old notes'')\<rparr>"]
  by simp

text \<open>
  C10. The template buttons change the text only: after \<open>load_template\<close> the seven other
  keys of the session hold what they held before (the selected template is an input of the
  run and is not written at all). When Load (replace) is pressed the new text is the
  template text, also when Load (append) is pressed with it: the result is the one of the
  same run without Load (append).
\<close>

theorem load_template_frame:
  assumes "load_template inp ss = Inr ss'"
  shows "ss_orientation ss' = ss_orientation ss \<and> ss_columns ss' = ss_columns ss \<and>
         ss_margin_mm ss' = ss_margin_mm ss \<and> ss_gap_mm ss' = ss_gap_mm ss \<and>
         ss_font_px ss' = ss_font_px ss \<and> ss_show_guides ss' = ss_show_guides ss \<and>
         ss_show_print_button ss' = ss_show_print_button ss \<and>
         ss' = ss\<lparr>ss_md := ss_md ss'\<rparr> \<and>
         (if load_replace inp then ss_md ss' = map_of TEMPLATES (selected_template inp)
          else True) \<and>
         load_template (inp\<lparr>load_append := False\<rparr>) ss =
           (if load_replace inp then Inr ss' else Inr (ss\<lparr>ss_md := Some (widget (ss_md ss) default_md)\<rparr>))"
  using assms by (auto simp: load_template_cases split: option.splits if_splits)

theorem load_template_frame_witness:
  "load_template \<lparr>btn_2up = False, btn_3up = False, btn_4up = False,
      selected_template = ''Blank'', load_replace = True, load_append = True,
      btn_download = False\<rparr> (empty_session\<lparr>ss_columns := Some 3, ss_md := Some (ascii ''abc'')\<rparr>)
     = Inr (empty_session\<lparr>ss_columns := Some 3, ss_md := Some []\<rparr>) \<and>
   ss_columns (empty_session\<lparr>ss_columns := Some 3, ss_md := Some []\<rparr>) = Some 3 \<and>
   ss_md (empty_session\<lparr>ss_columns := Some 3, ss_md := Some []\<rparr>) = Some []"
proof -
  have h: "load_template \<lparr>btn_2up = False, btn_3up = False, btn_4up = False,
      selected_template = ''Blank'', load_replace = True, load_append = True,
      btn_download = False\<rparr> (empty_session\<lparr>ss_columns := Some 3, ss_md := Some (ascii ''abc'')\<rparr>)
     = Inr (empty_session\<lparr>ss_columns := Some 3, ss_md := Some []\<rparr>)"
    by (simp add: load_template_cases map_of_TEMPLATES template_blank_def)
  from load_template_frame [OF h] h show ?thesis
    by (simp add: empty_session_def)
qed

subsection \<open>The bounds of the configuration\<close>

lemma store_ok_empty: "store_ok empty_session"
  by (simp add: store_ok_def in_bounds_def empty_session_def)

lemma store_ok_update:
  "store_ok ss \<Longrightarrow> in_bounds Columns (Some (p_columns p)) \<Longrightarrow> in_bounds Margin_mm (Some (p_margin_mm p))
   \<Longrightarrow> in_bounds Gap_mm (Some (p_gap_mm p)) \<Longrightarrow> in_bounds Font_px (Some (p_font_px p))
   \<Longrightarrow> store_ok (update p ss)"
  by (simp add: store_ok_def update_def)

lemma store_ok_apply_preset:
  "store_ok ss \<Longrightarrow> apply_preset name ss = Inr ss' \<Longrightarrow> store_ok ss'"
  by (auto simp: apply_preset_def dict_get_def PRESETS_def bind_e_def store_ok_def update_def in_bounds_def
      split: if_splits)

lemma store_ok_move_slider:
  "store_ok ss \<Longrightarrow> move_slider k v ss = Some ss' \<Longrightarrow> store_ok ss'"
  by (cases k) (auto simp: move_slider_def store_ok_def in_bounds_def split: if_splits)

lemma store_ok_sidebar:
  "store_ok ss \<Longrightarrow> valid_config (fst (sidebar ss)) \<and> store_ok (snd (sidebar ss))"
  by (auto simp: store_ok_def in_bounds_def sidebar_def valid_config_def widget_def Let_def split: option.splits)

lemma store_ok_load_template:
  "store_ok ss \<Longrightarrow> load_template inp ss = Inr ss' \<Longrightarrow> store_ok ss'"
  by (auto simp: load_template_cases store_ok_def split: if_splits option.splits)

lemma store_ok_preset_buttons:
  "store_ok ss \<Longrightarrow> preset_buttons inp ss = Inr ss' \<Longrightarrow> store_ok ss'"
  unfolding preset_buttons_def bind_e_def
  by (auto split: if_splits sum.splits) (meson store_ok_apply_preset)+

lemma run_result:
  "run inp ss = Inr (ss', doc, l) \<Longrightarrow>
     \<exists>ss1. preset_buttons inp ss = Inr ss1 \<and> load_template inp (snd (sidebar ss1)) = Inr ss' \<and>
       doc = html_doc (fst (sidebar ss1)) (widget (ss_md ss') default_md)"
  unfolding run_def bind_e_def
  by (auto simp: Let_def split: sum.splits prod.splits if_splits)

text \<open>
  C7. From a session whose stored slider values lie within the sliders' bounds, every
  preset and every move of a slider gives such a session again, the widgets return
  columns in 1..4, margin in 5..25, gap in 4..20 and font size in 9..16, and a whole run
  of the script leaves such a session and assembles its document from such values.
\<close>

theorem bounds_preserved:
  assumes "store_ok ss"
  shows "(\<forall>name ss'. apply_preset name ss = Inr ss' \<longrightarrow> store_ok ss') \<and>
         (\<forall>k v ss'. move_slider k v ss = Some ss' \<longrightarrow> store_ok ss') \<and>
         valid_config (fst (sidebar ss)) \<and> store_ok (snd (sidebar ss)) \<and>
         (\<forall>inp ss' doc l. run inp ss = Inr (ss', doc, l) \<longrightarrow>
            store_ok ss' \<and> (\<exists>cfg. valid_config cfg \<and> doc = html_doc cfg (widget (ss_md ss') default_md)))"
proof (intro conjI allI impI)
  fix name ss' assume "apply_preset name ss = Inr ss'"
  with assms show "store_ok ss'" by (rule store_ok_apply_preset)
next
  fix k v ss' assume "move_slider k v ss = Some ss'"
  with assms show "store_ok ss'" by (rule store_ok_move_slider)
next
  show "valid_config (fst (sidebar ss))" using assms store_ok_sidebar by blast
next
  show "store_ok (snd (sidebar ss))" using assms store_ok_sidebar by blast
next
  fix inp ss' doc l assume r: "run inp ss = Inr (ss', doc, l)"
  then obtain ss1 where 1: "preset_buttons inp ss = Inr ss1"
    and 2: "load_template inp (snd (sidebar ss1)) = Inr ss'"
    and 3: "doc = html_doc (fst (sidebar ss1)) (widget (ss_md ss') default_md)"
    using run_result by blast
  have ok1: "store_ok ss1" using assms 1 by (rule store_ok_preset_buttons)
  then have ok2: "valid_config (fst (sidebar ss1))" "store_ok (snd (sidebar ss1))"
    using store_ok_sidebar by blast+
  show "store_ok ss'" using ok2(2) 2 by (rule store_ok_load_template)
  show "\<exists>cfg. valid_config cfg \<and> doc = html_doc cfg (widget (ss_md ss') default_md)"
    using ok2(1) 3 by blast
qed

theorem bounds_preserved_witness:
  "store_ok empty_session \<and>
   store_ok (update \<lparr>p_columns = 4, p_margin_mm = 10, p_gap_mm = 6, p_font_px = 10, p_show_guides = True\<rparr> empty_session) \<and>
   move_slider Margin_mm 25 empty_session = Some (empty_session\<lparr>ss_margin_mm := Some 25\<rparr>) \<and>
   store_ok (empty_session\<lparr>ss_margin_mm := Some 25\<rparr>) \<and>
   valid_config (fst (sidebar empty_session))"
proof -
  have ok: "store_ok empty_session" by (rule store_ok_empty)
  have p: "apply_preset ''4-up'' empty_session =
      Inr (update \<lparr>p_columns = 4, p_margin_mm = 10, p_gap_mm = 6, p_font_px = 10, p_show_guides = True\<rparr> empty_session)"
    by (simp add: apply_preset_def dict_get_def PRESETS_def bind_e_def)
  have m: "move_slider Margin_mm 25 empty_session = Some (empty_session\<lparr>ss_margin_mm := Some 25\<rparr>)"
    by (simp add: move_slider_def)
  from bounds_preserved [OF ok] p m ok show ?thesis by blast
qed

subsection \<open>The escaped text inside the generated script\<close>

lemma md_js_concat: "md_js md = concat (map esc md)"
  unfolding md_js_def replace_single
  by (induction md) (auto simp: esc_def bslash_def btick_def dollar_def)































subsection \<open>Reading the style values back\<close>

lemma str_nat_digits: "list_all is_digit (str_nat n) \<and> str_nat n \<noteq> []"
proof (induction n rule: str_nat.induct)
  case (1 n)
  show ?case
  proof (cases "n < 10")
    case True
    then show ?thesis by (subst str_nat.simps, subst str_nat.simps) (simp add: is_digit_def)
  next
    case False
    have "n mod 10 < 10" by simp
    then have "is_digit (0x30 + n mod 10)" unfolding is_digit_def by linarith
    with False 1 show ?thesis by (subst str_nat.simps, subst str_nat.simps) simp
  qed
qed

lemma foldl_str_nat: "foldl (\<lambda>n c. 10 * n + (c - 0x30)) 0 (str_nat n) = n"
proof (induction n rule: str_nat.induct)
  case (1 n)
  show ?case
  proof (cases "n < 10")
    case True
    then show ?thesis by (subst str_nat.simps) simp
  next
    case False
    with 1 show ?thesis by (subst str_nat.simps) simp
  qed
qed

lemma parse_nat_str_nat: "parse_nat (str_nat n) = Some n"
  using str_nat_digits [of n] by (simp add: parse_nat_def foldl_str_nat)

lemma str_nat_Cons: "\<exists>d ds. str_nat n = d # ds \<and> is_digit d"
  using str_nat_digits [of n] by (cases "str_nat n") auto

lemma parse_int_str_int: "parse_int (str_int i) = Some i"
proof (cases "i < 0")
  case True
  then show ?thesis by (simp add: parse_int_def str_int_def parse_nat_str_nat)
next
  case False
  obtain d ds where d: "str_nat (nat i) = d # ds" "is_digit d" using str_nat_Cons by blast
  then have "d \<noteq> 0x2D" by (auto simp: is_digit_def)
  with False d show ?thesis
    using parse_nat_str_nat [of "nat i"] by (simp add: parse_int_def str_int_def)
qed

lemma str_int_chars: "c \<in> set (str_int i) \<Longrightarrow> c = 0x2D \<or> is_digit c"
  using str_nat_digits by (auto simp: str_int_def list_all_iff split: if_splits)

lemma find_after_skip: "k \<notin> set xs \<Longrightarrow> find_after (k # ks) (xs @ ys) = find_after (k # ks) ys"
  by (induction xs) auto

lemma find_after_skip_str_int_dash:
  "find_after (0x2D # 0x2D # ks) (str_int v @ ys) = find_after (0x2D # 0x2D # ks) ys"
proof -
  have nat: "find_after (0x2D # 0x2D # ks) (str_nat n @ ys) = find_after (0x2D # 0x2D # ks) ys" for n
  proof (rule find_after_skip)
    show "0x2D \<notin> set (str_nat n)"
      using str_nat_digits [of n] by (auto simp: list_all_iff is_digit_def)
  qed
  show ?thesis
  proof (cases "v < 0")
    case True
    obtain d ds where d: "str_nat (nat (- v)) = d # ds" "is_digit d" using str_nat_Cons by blast
    then have "d \<noteq> 0x2D" by (auto simp: is_digit_def)
    then have "find_after (0x2D # 0x2D # ks) (0x2D # str_nat (nat (- v)) @ ys)
        = find_after (0x2D # 0x2D # ks) (str_nat (nat (- v)) @ ys)"
      using d by simp
    with True show ?thesis by (simp add: str_int_def nat)
  next
    case False
    then show ?thesis by (simp add: str_int_def nat)
  qed
qed

lemma find_after_skip_number:
  assumes "take 2 key = [0x2D, 0x2D]"
  shows "find_after key (str_int v @ ys) = find_after key ys"
proof -
  from assms have "key = 0x2D # 0x2D # drop 2 key"
    by (metis append_take_drop_id append_Cons append_Nil)
  then show ?thesis
    using find_after_skip_str_int_dash [of "drop 2 key" v ys] by simp
qed

lemma find_after_skip_str_int:
  "\<not> is_digit k \<Longrightarrow> k \<noteq> 0x2D \<Longrightarrow> find_after (k # ks) (str_int v @ ys) = find_after (k # ks) ys"
  by (rule find_after_skip) (use str_int_chars in blast)

lemma css_number_found:
  assumes "find_after (ascii name @ ascii '': '') doc = Some (str_int v @ rest)"
    and "takeWhile (\<lambda>c. c \<noteq> 0x3B) rest = ascii unit"
  shows "css_number name unit doc = Some v"
proof -
  have "\<forall>c \<in> set (str_int v). c \<noteq> 0x3B"
    using str_int_chars by (fastforce simp: is_digit_def)
  then have "takeWhile (\<lambda>c. c \<noteq> 0x3B) (str_int v @ rest) = str_int v @ ascii unit"
    using assms(2) by simp
  then have "css_value name doc = Some (str_int v @ ascii unit)"
    using assms(1) by (simp add: css_value_def)
  then show ?thesis
    by (simp add: css_number_def ascii_def parse_int_str_int suffix_def)
qed

lemma fa_skip: "c \<noteq> k \<Longrightarrow> find_after (k # ks) (c # cs) = find_after (k # ks) cs"
  by simp

lemma fa_hit:
  "find_after (k # ks) (k # cs) =
     (if prefix ks cs then Some (drop (length ks) cs) else find_after (k # ks) cs)"
  by simp

lemma seg0_skip:
  "k \<noteq> 0x70 \<Longrightarrow>
     find_after (0x2D # 0x2D # k # ks) (html_seg0 @ X) = find_after (0x2D # 0x2D # k # ks) X"
  by (simp add: html_seg0_def ascii_def squote_def bslash_def fa_skip fa_hit
      del: find_after.simps(2))

lemma css_page_w: "css_number ''--page-w-mm'' ''mm'' (html_doc cfg md) = Some (page_w (orientation cfg))"
proof -
  let ?K = "ascii ''--page-w-mm'' @ ascii '': ''"
  have sk: "find_after ?K (str_int v @ ys) = find_after ?K ys" for v ys
    by (rule find_after_skip_number) (simp add: ascii_def)
  have h: "find_after ?K (html_seg0 @ X) = Some X" for X
    by (simp add: html_seg0_def ascii_def squote_def bslash_def fa_skip fa_hit del: find_after.simps(2))
  have t: "takeWhile (\<lambda>c. c \<noteq> 0x3B) (html_seg1 @ X) = ascii ''mm''" for X
    by (simp add: html_seg1_def ascii_def)
  have "\<exists>rest. find_after ?K (html_doc cfg md) = Some (str_int (page_w (orientation cfg)) @ html_seg1 @ rest)"
    by (simp add: html_doc_def sk h )
  then obtain rest where "find_after ?K (html_doc cfg md) = Some (str_int (page_w (orientation cfg)) @ html_seg1 @ rest)" ..
  then show ?thesis by (rule css_number_found) (rule t)
qed

lemma css_page_h: "css_number ''--page-h-mm'' ''mm'' (html_doc cfg md) = Some (page_h (orientation cfg))"
proof -
  let ?K = "ascii ''--page-h-mm'' @ ascii '': ''"
  have sk: "find_after ?K (str_int v @ ys) = find_after ?K ys" for v ys
    by (rule find_after_skip_number) (simp add: ascii_def)
  have s0: "find_after ?K (html_seg0 @ X) = find_after ?K X" for X
    by (simp add: html_seg0_def ascii_def squote_def bslash_def fa_skip fa_hit del: find_after.simps(2))
  have h: "find_after ?K (html_seg1 @ X) = Some X" for X
    by (simp add: html_seg1_def ascii_def squote_def bslash_def fa_skip fa_hit del: find_after.simps(2))
  have t: "takeWhile (\<lambda>c. c \<noteq> 0x3B) (html_seg2 @ X) = ascii ''mm''" for X
    by (simp add: html_seg2_def ascii_def)
  have "\<exists>rest. find_after ?K (html_doc cfg md) = Some (str_int (page_h (orientation cfg)) @ html_seg2 @ rest)"
    by (simp add: html_doc_def sk h s0)
  then obtain rest where "find_after ?K (html_doc cfg md) = Some (str_int (page_h (orientation cfg)) @ html_seg2 @ rest)" ..
  then show ?thesis by (rule css_number_found) (rule t)
qed

lemma css_margin: "css_number ''--margin-mm'' ''mm'' (html_doc cfg md) = Some (margin_mm cfg)"
proof -
  let ?K = "ascii ''--margin-mm'' @ ascii '': ''"
  have sk: "find_after ?K (str_int v @ ys) = find_after ?K ys" for v ys
    by (rule find_after_skip_number) (simp add: ascii_def)
  have s0: "find_after ?K (html_seg0 @ X) = find_after ?K X" for X
    using seg0_skip [of "0x6D" "drop 3 ?K" X] by (simp add: ascii_def)
  have s1: "find_after ?K (html_seg1 @ X) = find_after ?K X" for X
    by (simp add: html_seg1_def ascii_def squote_def bslash_def fa_skip fa_hit del: find_after.simps(2))
  have h: "find_after ?K (html_seg2 @ X) = Some X" for X
    by (simp add: html_seg2_def ascii_def squote_def bslash_def fa_skip fa_hit del: find_after.simps(2))
  have t: "takeWhile (\<lambda>c. c \<noteq> 0x3B) (html_seg3 @ X) = ascii ''mm''" for X
    by (simp add: html_seg3_def ascii_def)
  have "\<exists>rest. find_after ?K (html_doc cfg md) = Some (str_int (margin_mm cfg) @ html_seg3 @ rest)"
    by (simp add: html_doc_def sk h s0 s1)
  then obtain rest where "find_after ?K (html_doc cfg md) = Some (str_int (margin_mm cfg) @ html_seg3 @ rest)" ..
  then show ?thesis by (rule css_number_found) (rule t)
qed

lemma css_gap: "css_number ''--gap-mm'' ''mm'' (html_doc cfg md) = Some (gap_mm cfg)"
proof -
  let ?K = "ascii ''--gap-mm'' @ ascii '': ''"
  have sk: "find_after ?K (str_int v @ ys) = find_after ?K ys" for v ys
    by (rule find_after_skip_number) (simp add: ascii_def)
  have s0: "find_after ?K (html_seg0 @ X) = find_after ?K X" for X
    using seg0_skip [of "0x67" "drop 3 ?K" X] by (simp add: ascii_def)
  have s1: "find_after ?K (html_seg1 @ X) = find_after ?K X" for X
    by (simp add: html_seg1_def ascii_def squote_def bslash_def fa_skip fa_hit del: find_after.simps(2))
  have s2: "find_after ?K (html_seg2 @ X) = find_after ?K X" for X
    by (simp add: html_seg2_def ascii_def squote_def bslash_def fa_skip fa_hit del: find_after.simps(2))
  have h: "find_after ?K (html_seg3 @ X) = Some X" for X
    by (simp add: html_seg3_def ascii_def squote_def bslash_def fa_skip fa_hit del: find_after.simps(2))
  have t: "takeWhile (\<lambda>c. c \<noteq> 0x3B) (html_seg4 @ X) = ascii ''mm''" for X
    by (simp add: html_seg4_def ascii_def)
  have "\<exists>rest. find_after ?K (html_doc cfg md) = Some (str_int (gap_mm cfg) @ html_seg4 @ rest)"
    by (simp add: html_doc_def sk h s0 s1 s2)
  then obtain rest where "find_after ?K (html_doc cfg md) = Some (str_int (gap_mm cfg) @ html_seg4 @ rest)" ..
  then show ?thesis by (rule css_number_found) (rule t)
qed

lemma css_font: "css_number ''--font-px'' ''px'' (html_doc cfg md) = Some (font_px cfg)"
proof -
  let ?K = "ascii ''--font-px'' @ ascii '': ''"
  have sk: "find_after ?K (str_int v @ ys) = find_after ?K ys" for v ys
    by (rule find_after_skip_number) (simp add: ascii_def)
  have s0: "find_after ?K (html_seg0 @ X) = find_after ?K X" for X
    using seg0_skip [of "0x66" "drop 3 ?K" X] by (simp add: ascii_def)
  have s1: "find_after ?K (html_seg1 @ X) = find_after ?K X" for X
    by (simp add: html_seg1_def ascii_def squote_def bslash_def fa_skip fa_hit del: find_after.simps(2))
  have s2: "find_after ?K (html_seg2 @ X) = find_after ?K X" for X
    by (simp add: html_seg2_def ascii_def squote_def bslash_def fa_skip fa_hit del: find_after.simps(2))
  have s3: "find_after ?K (html_seg3 @ X) = find_after ?K X" for X
    by (simp add: html_seg3_def ascii_def squote_def bslash_def fa_skip fa_hit del: find_after.simps(2))
  have h: "find_after ?K (html_seg4 @ X) = Some X" for X
    by (simp add: html_seg4_def ascii_def squote_def bslash_def fa_skip fa_hit del: find_after.simps(2))
  have t: "takeWhile (\<lambda>c. c \<noteq> 0x3B) (html_seg5 @ X) = ascii ''px''" for X
    by (simp add: html_seg5_def ascii_def)
  have "\<exists>rest. find_after ?K (html_doc cfg md) = Some (str_int (font_px cfg) @ html_seg5 @ rest)"
    by (simp add: html_doc_def sk h s0 s1 s2 s3)
  then obtain rest where "find_after ?K (html_doc cfg md) = Some (str_int (font_px cfg) @ html_seg5 @ rest)" ..
  then show ?thesis by (rule css_number_found) (rule t)
qed

lemma css_cols: "css_number ''--cols'' '''' (html_doc cfg md) = Some (columns cfg)"
proof -
  let ?K = "ascii ''--cols'' @ ascii '': ''"
  have sk: "find_after ?K (str_int v @ ys) = find_after ?K ys" for v ys
    by (rule find_after_skip_number) (simp add: ascii_def)
  have s0: "find_after ?K (html_seg0 @ X) = find_after ?K X" for X
    using seg0_skip [of "0x63" "drop 3 ?K" X] by (simp add: ascii_def)
  have s1: "find_after ?K (html_seg1 @ X) = find_after ?K X" for X
    by (simp add: html_seg1_def ascii_def squote_def bslash_def fa_skip fa_hit del: find_after.simps(2))
  have s2: "find_after ?K (html_seg2 @ X) = find_after ?K X" for X
    by (simp add: html_seg2_def ascii_def squote_def bslash_def fa_skip fa_hit del: find_after.simps(2))
  have s3: "find_after ?K (html_seg3 @ X) = find_after ?K X" for X
    by (simp add: html_seg3_def ascii_def squote_def bslash_def fa_skip fa_hit del: find_after.simps(2))
  have s4: "find_after ?K (html_seg4 @ X) = find_after ?K X" for X
    by (simp add: html_seg4_def ascii_def squote_def bslash_def fa_skip fa_hit del: find_after.simps(2))
  have h: "find_after ?K (html_seg5 @ X) = Some X" for X
    by (simp add: html_seg5_def ascii_def squote_def bslash_def fa_skip fa_hit del: find_after.simps(2))
  have t: "takeWhile (\<lambda>c. c \<noteq> 0x3B) (html_seg6 @ X) = ascii ''''" for X
    by (simp add: html_seg6_def ascii_def)
  have "\<exists>rest. find_after ?K (html_doc cfg md) = Some (str_int (columns cfg) @ html_seg6 @ rest)"
    by (simp add: html_doc_def sk h s0 s1 s2 s3 s4)
  then obtain rest where "find_after ?K (html_doc cfg md) = Some (str_int (columns cfg) @ html_seg6 @ rest)" ..
  then show ?thesis by (rule css_number_found) (rule t)
qed


lemma find_after_skip_word:
  assumes "take 1 key = [k]" and "\<not> is_digit k" and "k \<noteq> 0x2D"
  shows "find_after key (str_int v @ ys) = find_after key ys"
proof -
  from assms(1) have "key = k # drop 1 key"
    by (metis append_take_drop_id append_Cons append_Nil)
  then show ?thesis
    using find_after_skip_str_int [OF assms(2,3), of "drop 1 key" v ys] by simp
qed



lemma css_column_rule:
  assumes "orientation cfg = ascii ''portrait'' \<or> orientation cfg = ascii ''landscape''"
  shows "css_value ''column-rule'' (html_doc cfg md) =
           Some (if show_guides cfg then ascii ''1px solid #ddd'' else ascii ''none'')"
proof -
  let ?K = "ascii ''column-rule: ''"
  have sk: "find_after ?K (str_int v @ ys) = find_after ?K ys" for v ys
    by (rule find_after_skip_word [where k = "0x63"]) (simp_all add: ascii_def is_digit_def)
  have s0: "find_after ?K (html_seg0 @ X) = find_after ?K X" for X
    by (simp add: html_seg0_def ascii_def squote_def bslash_def fa_skip fa_hit del: find_after.simps(2))
  have s1: "find_after ?K (html_seg1 @ X) = find_after ?K X" for X
    by (simp add: html_seg1_def ascii_def squote_def bslash_def fa_skip fa_hit del: find_after.simps(2))
  have s2: "find_after ?K (html_seg2 @ X) = find_after ?K X" for X
    by (simp add: html_seg2_def ascii_def squote_def bslash_def fa_skip fa_hit del: find_after.simps(2))
  have s3: "find_after ?K (html_seg3 @ X) = find_after ?K X" for X
    by (simp add: html_seg3_def ascii_def squote_def bslash_def fa_skip fa_hit del: find_after.simps(2))
  have s4: "find_after ?K (html_seg4 @ X) = find_after ?K X" for X
    by (simp add: html_seg4_def ascii_def squote_def bslash_def fa_skip fa_hit del: find_after.simps(2))
  have s5: "find_after ?K (html_seg5 @ X) = find_after ?K X" for X
    by (simp add: html_seg5_def ascii_def squote_def bslash_def fa_skip fa_hit del: find_after.simps(2))
  have s6: "find_after ?K (html_seg6 @ X) = find_after ?K X" for X
    by (simp add: html_seg6_def ascii_def squote_def bslash_def fa_skip fa_hit del: find_after.simps(2))
  have s7: "find_after ?K (html_seg7 @ X) = find_after ?K X" for X
    by (simp add: html_seg7_def ascii_def squote_def bslash_def fa_skip fa_hit del: find_after.simps(2))
  have so: "find_after ?K (orientation cfg @ X) = find_after ?K X" for X
    using assms by (elim disjE; simp add: ascii_def squote_def bslash_def fa_skip fa_hit del: find_after.simps(2))
  have h: "find_after ?K (rule_css g @ X) =
      Some ((if g then ascii ''1px solid #ddd'' else ascii ''none'') @ 0x3B # X)" for g X
    by (cases g; simp add: rule_css_def ascii_def squote_def bslash_def fa_skip fa_hit del: find_after.simps(2))
  have t: "takeWhile (\<lambda>c. c \<noteq> 0x3B) ((if g then ascii ''1px solid #ddd'' else ascii ''none'') @ 0x3B # X) =
      (if g then ascii ''1px solid #ddd'' else ascii ''none'')" for g X
    by (simp add: ascii_def)
  have k: "ascii ''column-rule'' @ ascii '': '' = ?K" by (simp add: ascii_def)
  have "find_after ?K (html_doc cfg md) = find_after ?K (rule_css (show_guides cfg) @ html_seg8 @ orientation cfg @ html_seg9 @ str_int (columns cfg) @ html_seg10 @ md_js md @ html_seg11)"
    by (simp add: html_doc_def sk s0 s1 s2 s3 s4 s5 s6 s7 so)
  then show ?thesis
    unfolding css_value_def k by (simp only: h t option.map)
qed

lemma css_break_inside:
  assumes "orientation cfg = ascii ''portrait'' \<or> orientation cfg = ascii ''landscape''"
  shows "css_value ''break-inside'' (html_doc cfg md) = Some (ascii ''avoid'')"
proof -
  let ?K = "ascii ''break-inside: ''"
  have sk: "find_after ?K (str_int v @ ys) = find_after ?K ys" for v ys
    by (rule find_after_skip_word [where k = "0x62"]) (simp_all add: ascii_def is_digit_def)
  have s0: "find_after ?K (html_seg0 @ X) = find_after ?K X" for X
    by (simp add: html_seg0_def ascii_def squote_def bslash_def fa_skip fa_hit del: find_after.simps(2))
  have s1: "find_after ?K (html_seg1 @ X) = find_after ?K X" for X
    by (simp add: html_seg1_def ascii_def squote_def bslash_def fa_skip fa_hit del: find_after.simps(2))
  have s2: "find_after ?K (html_seg2 @ X) = find_after ?K X" for X
    by (simp add: html_seg2_def ascii_def squote_def bslash_def fa_skip fa_hit del: find_after.simps(2))
  have s3: "find_after ?K (html_seg3 @ X) = find_after ?K X" for X
    by (simp add: html_seg3_def ascii_def squote_def bslash_def fa_skip fa_hit del: find_after.simps(2))
  have s4: "find_after ?K (html_seg4 @ X) = find_after ?K X" for X
    by (simp add: html_seg4_def ascii_def squote_def bslash_def fa_skip fa_hit del: find_after.simps(2))
  have s5: "find_after ?K (html_seg5 @ X) = find_after ?K X" for X
    by (simp add: html_seg5_def ascii_def squote_def bslash_def fa_skip fa_hit del: find_after.simps(2))
  have s6: "find_after ?K (html_seg6 @ X) = find_after ?K X" for X
    by (simp add: html_seg6_def ascii_def squote_def bslash_def fa_skip fa_hit del: find_after.simps(2))
  have s7: "find_after ?K (html_seg7 @ X) = find_after ?K X" for X
    by (simp add: html_seg7_def ascii_def squote_def bslash_def fa_skip fa_hit del: find_after.simps(2))
  have so: "find_after ?K (orientation cfg @ X) = find_after ?K X" for X
    using assms by (elim disjE; simp add: ascii_def squote_def bslash_def fa_skip fa_hit del: find_after.simps(2))
  have sr: "find_after ?K (rule_css g @ X) = find_after ?K X" for g X
    by (cases g; simp add: rule_css_def ascii_def squote_def bslash_def fa_skip fa_hit del: find_after.simps(2))
  have h: "map_option (takeWhile (\<lambda>c. c \<noteq> 0x3B)) (find_after ?K (html_seg8 @ X)) = Some (ascii ''avoid'')" for X
    by (simp add: html_seg8_def ascii_def squote_def bslash_def fa_skip fa_hit del: find_after.simps(2))
  have k: "ascii ''break-inside'' @ ascii '': '' = ?K" by (simp add: ascii_def)
  have "find_after ?K (html_doc cfg md) = find_after ?K (html_seg8 @ orientation cfg @ html_seg9 @ str_int (columns cfg) @ html_seg10 @ md_js md @ html_seg11)"
    by (simp add: html_doc_def sr sk s0 s1 s2 s3 s4 s5 s6 s7 so)
  then show ?thesis
    unfolding css_value_def k by (simp only: h)
qed

lemma no_page_break:
  assumes "orientation cfg = ascii ''portrait'' \<or> orientation cfg = ascii ''landscape''"
  shows "find_after (ascii ''page-break'') (html_doc cfg md) =
           find_after (ascii ''page-break'') (md_js md @ html_seg11)"
proof -
  let ?K = "ascii ''page-break''"
  have sk: "find_after ?K (str_int v @ ys) = find_after ?K ys" for v ys
    by (rule find_after_skip_word [where k = "0x70"]) (simp_all add: ascii_def is_digit_def)
  have s0: "find_after ?K (html_seg0 @ X) = find_after ?K X" for X
    by (simp add: html_seg0_def ascii_def squote_def bslash_def fa_skip fa_hit del: find_after.simps(2))
  have s1: "find_after ?K (html_seg1 @ X) = find_after ?K X" for X
    by (simp add: html_seg1_def ascii_def squote_def bslash_def fa_skip fa_hit del: find_after.simps(2))
  have s2: "find_after ?K (html_seg2 @ X) = find_after ?K X" for X
    by (simp add: html_seg2_def ascii_def squote_def bslash_def fa_skip fa_hit del: find_after.simps(2))
  have s3: "find_after ?K (html_seg3 @ X) = find_after ?K X" for X
    by (simp add: html_seg3_def ascii_def squote_def bslash_def fa_skip fa_hit del: find_after.simps(2))
  have s4: "find_after ?K (html_seg4 @ X) = find_after ?K X" for X
    by (simp add: html_seg4_def ascii_def squote_def bslash_def fa_skip fa_hit del: find_after.simps(2))
  have s5: "find_after ?K (html_seg5 @ X) = find_after ?K X" for X
    by (simp add: html_seg5_def ascii_def squote_def bslash_def fa_skip fa_hit del: find_after.simps(2))
  have s6: "find_after ?K (html_seg6 @ X) = find_after ?K X" for X
    by (simp add: html_seg6_def ascii_def squote_def bslash_def fa_skip fa_hit del: find_after.simps(2))
  have s7: "find_after ?K (html_seg7 @ X) = find_after ?K X" for X
    by (simp add: html_seg7_def ascii_def squote_def bslash_def fa_skip fa_hit del: find_after.simps(2))
  have s8: "find_after ?K (html_seg8 @ X) = find_after ?K X" for X
    by (simp add: html_seg8_def ascii_def squote_def bslash_def fa_skip fa_hit del: find_after.simps(2))
  have s9: "find_after ?K (html_seg9 @ X) = find_after ?K X" for X
    by (simp add: html_seg9_def ascii_def squote_def bslash_def fa_skip fa_hit del: find_after.simps(2))
  have s10: "find_after ?K (html_seg10 @ X) = find_after ?K X" for X
    by (simp add: html_seg10_def ascii_def squote_def bslash_def fa_skip fa_hit del: find_after.simps(2))
  have so: "find_after ?K (orientation cfg @ X) = find_after ?K X" for X
    using assms by (elim disjE; simp add: ascii_def squote_def bslash_def fa_skip fa_hit del: find_after.simps(2))
  have sr: "find_after ?K (rule_css g @ X) = find_after ?K X" for g X
    by (cases g; simp add: rule_css_def ascii_def squote_def bslash_def fa_skip fa_hit del: find_after.simps(2))
  show ?thesis
    by (simp add: html_doc_def sk s0 s1 s2 s3 s4 s5 s6 s7 s8 s9 s10 so sr)
qed

lemma no_page_break_seg11: "find_after (ascii ''page-break'') html_seg11 = None"
  by (simp add: html_seg11_def ascii_def squote_def bslash_def fa_skip fa_hit del: find_after.simps(2))

text \<open>
  C2. For every configuration, and so for every valid one (columns in 1..4, margin in 5..25,
  gap in 4..20, font in 9..16): the numbers read back from the declarations
  \<open>--margin-mm\<close>, \<open>--gap-mm\<close>, \<open>--font-px\<close> and \<open>--cols\<close> of the assembled document are the
  configuration's margin, gap, font size and column count.
\<close>

theorem style_values_round_trip:
  "css_number ''--margin-mm'' ''mm'' (html_doc cfg md) = Some (margin_mm cfg) \<and>
   css_number ''--gap-mm'' ''mm'' (html_doc cfg md) = Some (gap_mm cfg) \<and>
   css_number ''--font-px'' ''px'' (html_doc cfg md) = Some (font_px cfg) \<and>
   css_number ''--cols'' [] (html_doc cfg md) = Some (columns cfg)"
  by (intro conjI) (rule css_margin css_gap css_font css_cols)+

text \<open>
  C9 (as amended). For every configuration whose orientation is one of the two entries of
  the selector: the style declares \<open>--page-w-mm\<close>, \<open>--page-h-mm\<close>, \<open>--margin-mm\<close>,
  \<open>--gap-mm\<close>, \<open>--font-px\<close> and \<open>--cols\<close> with the page width, the page height and the
  configuration's margin, gap, font size and column count, and its first \<open>column-rule\<close>
  declaration has the value \<open>1px solid #ddd\<close> when the guides are shown and \<open>none\<close> when they
  are not; the flag changes nothing else in the document.
\<close>

theorem style_properties_and_column_rule:
  assumes "orientation cfg = ascii ''portrait'' \<or> orientation cfg = ascii ''landscape''"
  shows "css_number ''--page-w-mm'' ''mm'' (html_doc cfg md) = Some (page_w (orientation cfg)) \<and>
         css_number ''--page-h-mm'' ''mm'' (html_doc cfg md) = Some (page_h (orientation cfg)) \<and>
         css_number ''--margin-mm'' ''mm'' (html_doc cfg md) = Some (margin_mm cfg) \<and>
         css_number ''--gap-mm'' ''mm'' (html_doc cfg md) = Some (gap_mm cfg) \<and>
         css_number ''--font-px'' ''px'' (html_doc cfg md) = Some (font_px cfg) \<and>
         css_number ''--cols'' [] (html_doc cfg md) = Some (columns cfg) \<and>
         css_value ''column-rule'' (html_doc cfg md) =
           Some (if show_guides cfg then ascii ''1px solid #ddd'' else ascii ''none'') \<and>
         (\<exists>before after. \<forall>b.
            html_doc (cfg\<lparr>show_guides := b\<rparr>) md = before @ rule_css b @ after)"
proof -
  have "\<forall>b. html_doc (cfg\<lparr>show_guides := b\<rparr>) md =
      (html_seg0 @ str_int (page_w (orientation cfg)) @ html_seg1 @
       str_int (page_h (orientation cfg)) @ html_seg2 @ str_int (margin_mm cfg) @ html_seg3 @
       str_int (gap_mm cfg) @ html_seg4 @ str_int (font_px cfg) @ html_seg5 @
       str_int (columns cfg) @ html_seg6 @ orientation cfg @ html_seg7) @ rule_css b @
      (html_seg8 @ orientation cfg @ html_seg9 @ str_int (columns cfg) @ html_seg10 @
       md_js md @ html_seg11)"
    by (simp add: html_doc_def)
  then have "\<exists>before after. \<forall>b.
      html_doc (cfg\<lparr>show_guides := b\<rparr>) md = before @ rule_css b @ after"
    by blast
  then show ?thesis
    using css_page_w [of cfg md] css_page_h [of cfg md] css_margin [of cfg md]
      css_gap [of cfg md] css_font [of cfg md] css_cols [of cfg md]
      css_column_rule [OF assms, of md]
    by simp
qed

theorem style_properties_and_column_rule_witness:
  "orientation (\<lparr>orientation = ascii ''portrait'', columns = 2, margin_mm = 12, gap_mm = 8,
      font_px = 11, show_guides = True, show_print_button = True\<rparr>) = ascii ''portrait'' \<and>
   css_number ''--page-w-mm'' ''mm'' (html_doc (\<lparr>orientation = ascii ''portrait'', columns = 2, margin_mm = 12, gap_mm = 8,
      font_px = 11, show_guides = True, show_print_button = True\<rparr>) []) = Some 210 \<and>
   css_number ''--cols'' [] (html_doc (\<lparr>orientation = ascii ''portrait'', columns = 2, margin_mm = 12, gap_mm = 8,
      font_px = 11, show_guides = True, show_print_button = True\<rparr>) []) = Some 2 \<and>
   css_value ''column-rule'' (html_doc (\<lparr>orientation = ascii ''portrait'', columns = 2, margin_mm = 12, gap_mm = 8,
      font_px = 11, show_guides = True, show_print_button = True\<rparr>) []) = Some (ascii ''1px solid #ddd'')"
proof -
  have o: "orientation (\<lparr>orientation = ascii ''portrait'', columns = 2, margin_mm = 12, gap_mm = 8,
      font_px = 11, show_guides = True, show_print_button = True\<rparr>) = ascii ''portrait''"
    by simp
  from style_properties_and_column_rule [of "\<lparr>orientation = ascii ''portrait'', columns = 2, margin_mm = 12, gap_mm = 8,
      font_px = 11, show_guides = True, show_print_button = True\<rparr>" "[]"] o
  show ?thesis by (simp add: page_w_def A4_W_def)
qed

text \<open>
  C9 as stated fails: the rule that the guides flag toggles is not a page-break rule. With
  the guides shown and with the guides hidden the document has no \<open>page-break\<close> declaration
  at all, and its \<open>break-inside\<close> rule has the value \<open>avoid\<close> both times; the declaration
  that differs is \<open>column-rule\<close>, the line drawn between columns.
\<close>

theorem no_page_break_rule_counterexample:
  "find_after (ascii ''page-break'') (html_doc (\<lparr>orientation = ascii ''portrait'', columns = 2, margin_mm = 12, gap_mm = 8,
      font_px = 11, show_guides = True, show_print_button = True\<rparr>) []) = None \<and>
   find_after (ascii ''page-break'') (html_doc (\<lparr>orientation = ascii ''portrait'', columns = 2, margin_mm = 12, gap_mm = 8,
      font_px = 11, show_guides = False, show_print_button = True\<rparr>) []) = None \<and>
   css_value ''break-inside'' (html_doc (\<lparr>orientation = ascii ''portrait'', columns = 2, margin_mm = 12, gap_mm = 8,
      font_px = 11, show_guides = True, show_print_button = True\<rparr>) []) = Some (ascii ''avoid'') \<and>
   css_value ''break-inside'' (html_doc (\<lparr>orientation = ascii ''portrait'', columns = 2, margin_mm = 12, gap_mm = 8,
      font_px = 11, show_guides = False, show_print_button = True\<rparr>) []) = Some (ascii ''avoid'') \<and>
   css_value ''column-rule'' (html_doc (\<lparr>orientation = ascii ''portrait'', columns = 2, margin_mm = 12, gap_mm = 8,
      font_px = 11, show_guides = True, show_print_button = True\<rparr>) []) = Some (ascii ''1px solid #ddd'') \<and>
   css_value ''column-rule'' (html_doc (\<lparr>orientation = ascii ''portrait'', columns = 2, margin_mm = 12, gap_mm = 8,
      font_px = 11, show_guides = False, show_print_button = True\<rparr>) []) = Some (ascii ''none'')"
proof -
  have oT: "orientation (\<lparr>orientation = ascii ''portrait'', columns = 2, margin_mm = 12, gap_mm = 8,
      font_px = 11, show_guides = True, show_print_button = True\<rparr>) = ascii ''portrait'' \<or> orientation (\<lparr>orientation = ascii ''portrait'', columns = 2, margin_mm = 12, gap_mm = 8,
      font_px = 11, show_guides = True, show_print_button = True\<rparr>) = ascii ''landscape''"
    by simp
  have oF: "orientation (\<lparr>orientation = ascii ''portrait'', columns = 2, margin_mm = 12, gap_mm = 8,
      font_px = 11, show_guides = False, show_print_button = True\<rparr>) = ascii ''portrait'' \<or> orientation (\<lparr>orientation = ascii ''portrait'', columns = 2, margin_mm = 12, gap_mm = 8,
      font_px = 11, show_guides = False, show_print_button = True\<rparr>) = ascii ''landscape''"
    by simp
  have e: "md_js [] = []"
    by (simp add: md_js_concat)
  show ?thesis
    using no_page_break [OF oT, of "[]"] no_page_break [OF oF, of "[]"]
      css_break_inside [OF oT, of "[]"] css_break_inside [OF oF, of "[]"]
      css_column_rule [OF oT, of "[]"] css_column_rule [OF oF, of "[]"]
    by (simp add: e no_page_break_seg11)
qed

subsection \<open>The download link\<close>

lemma of_char_of_small: "x < 256 \<Longrightarrow> (of_char (char_of (x::nat)) :: nat) = x"
  by simp

lemma utf8_char_1:
  assumes "c < 0x80"
  shows "utf8_char c = Inr [char_of c]"
    and "decode_utf8 ([char_of c] @ rest) = cons_e c (decode_utf8 rest)"
  using assms by (simp_all add: utf8_char_def Let_def)

lemma utf8_char_2:
  assumes "0x80 \<le> c" and "c < 0x800"
  shows "utf8_char c = Inr [char_of (0xC0 + c div 0x40), char_of (0x80 + c mod 0x40)]"
    and "decode_utf8 ([char_of (0xC0 + c div 0x40), char_of (0x80 + c mod 0x40)] @ rest)
         = cons_e c (decode_utf8 rest)"
proof -
  show "utf8_char c = Inr [char_of (0xC0 + c div 0x40), char_of (0x80 + c mod 0x40)]"
    using assms by (simp add: utf8_char_def)
  have d: "c div 0x40 < 0x20" using assms by (intro less_mult_imp_div_less) simp
  have a: "(of_char (char_of (0xC0 + c div 0x40)) :: nat) = 0xC0 + c div 0x40"
    using d by (intro of_char_of_small) simp
  have b: "(of_char (char_of (0x80 + c mod 0x40)) :: nat) = 0x80 + c mod 0x40"
    by (intro of_char_of_small) simp
  have v: "c div 0x40 * 0x40 + c mod 0x40 = c" by simp
  show "decode_utf8 ([char_of (0xC0 + c div 0x40), char_of (0x80 + c mod 0x40)] @ rest)
         = cons_e c (decode_utf8 rest)"
    using assms d by (simp add: a b v Let_def is_cont_def cont_bits_def)
qed

lemma utf8_char_3:
  assumes "0x800 \<le> c" and "c < 0x10000" and "\<not> (0xD800 \<le> c \<and> c \<le> 0xDFFF)"
  shows "utf8_char c = Inr [char_of (0xE0 + c div 0x1000), char_of (0x80 + c div 0x40 mod 0x40),
             char_of (0x80 + c mod 0x40)]"
    and "decode_utf8 ([char_of (0xE0 + c div 0x1000), char_of (0x80 + c div 0x40 mod 0x40),
             char_of (0x80 + c mod 0x40)] @ rest) = cons_e c (decode_utf8 rest)"
proof -
  show "utf8_char c = Inr [char_of (0xE0 + c div 0x1000), char_of (0x80 + c div 0x40 mod 0x40),
             char_of (0x80 + c mod 0x40)]"
    using assms by (simp add: utf8_char_def)
  have d: "c div 0x1000 < 0x10" using assms by (intro less_mult_imp_div_less) simp
  have a: "(of_char (char_of (0xE0 + c div 0x1000)) :: nat) = 0xE0 + c div 0x1000"
    using d by (intro of_char_of_small) simp
  have b: "(of_char (char_of (0x80 + c div 0x40 mod 0x40)) :: nat) = 0x80 + c div 0x40 mod 0x40"
    by (intro of_char_of_small) simp
  have b': "(of_char (char_of (0x80 + c mod 0x40)) :: nat) = 0x80 + c mod 0x40"
    by (intro of_char_of_small) simp
  have "c mod 0x1000 = 0x40 * (c div 0x40 mod 0x40) + c mod 0x40"
    using mod_mult2_eq [of c "0x40" "0x40"] by simp
  then have v: "c div 0x1000 * 0x1000 + c div 0x40 mod 0x40 * 0x40 + c mod 0x40 = c"
    using div_mult_mod_eq [of c "0x1000"] by simp
  show "decode_utf8 ([char_of (0xE0 + c div 0x1000), char_of (0x80 + c div 0x40 mod 0x40),
             char_of (0x80 + c mod 0x40)] @ rest) = cons_e c (decode_utf8 rest)"
    using assms d by (simp add: a b b' v Let_def is_cont_def cont_bits_def)
qed

lemma utf8_char_4:
  assumes "0x10000 \<le> c" and "c < 0x110000"
  shows "utf8_char c = Inr [char_of (0xF0 + c div 0x40000), char_of (0x80 + c div 0x1000 mod 0x40),
             char_of (0x80 + c div 0x40 mod 0x40), char_of (0x80 + c mod 0x40)]"
    and "decode_utf8 ([char_of (0xF0 + c div 0x40000), char_of (0x80 + c div 0x1000 mod 0x40),
             char_of (0x80 + c div 0x40 mod 0x40), char_of (0x80 + c mod 0x40)] @ rest)
         = cons_e c (decode_utf8 rest)"
proof -
  show "utf8_char c = Inr [char_of (0xF0 + c div 0x40000), char_of (0x80 + c div 0x1000 mod 0x40),
             char_of (0x80 + c div 0x40 mod 0x40), char_of (0x80 + c mod 0x40)]"
    using assms by (simp add: utf8_char_def)
  have d: "c div 0x40000 < 5" using assms by (intro less_mult_imp_div_less) simp
  have a: "(of_char (char_of (0xF0 + c div 0x40000)) :: nat) = 0xF0 + c div 0x40000"
    using d by (intro of_char_of_small) simp
  have b: "(of_char (char_of (0x80 + c div 0x1000 mod 0x40)) :: nat) = 0x80 + c div 0x1000 mod 0x40"
    by (intro of_char_of_small) simp
  have b': "(of_char (char_of (0x80 + c div 0x40 mod 0x40)) :: nat) = 0x80 + c div 0x40 mod 0x40"
    by (intro of_char_of_small) simp
  have b'': "(of_char (char_of (0x80 + c mod 0x40)) :: nat) = 0x80 + c mod 0x40"
    by (intro of_char_of_small) simp
  have "c mod 0x1000 = 0x40 * (c div 0x40 mod 0x40) + c mod 0x40"
    using mod_mult2_eq [of c "0x40" "0x40"] by simp
  moreover have "c mod 0x40000 = 0x1000 * (c div 0x1000 mod 0x40) + c mod 0x1000"
    using mod_mult2_eq [of c "0x1000" "0x40"] by simp
  ultimately have v: "c div 0x40000 * 0x40000 + c div 0x1000 mod 0x40 * 0x1000
      + c div 0x40 mod 0x40 * 0x40 + c mod 0x40 = c"
    using div_mult_mod_eq [of c "0x40000"] by simp
  show "decode_utf8 ([char_of (0xF0 + c div 0x40000), char_of (0x80 + c div 0x1000 mod 0x40),
             char_of (0x80 + c div 0x40 mod 0x40), char_of (0x80 + c mod 0x40)] @ rest)
         = cons_e c (decode_utf8 rest)"
    using assms d by (simp add: a b b' b'' v Let_def is_cont_def cont_bits_def)
qed

lemma utf8_char_round_trip:
  assumes "scalar_value c"
  shows "\<exists>b. utf8_char c = Inr b \<and> (\<forall>rest. decode_utf8 (b @ rest) = cons_e c (decode_utf8 rest))"
proof -
  consider "c < 0x80" | "0x80 \<le> c" "c < 0x800"
    | "0x800 \<le> c" "c < 0x10000" "\<not> (0xD800 \<le> c \<and> c \<le> 0xDFFF)"
    | "0x10000 \<le> c" "c < 0x110000"
    using assms unfolding scalar_value_def by linarith
  then show ?thesis
  proof cases
    case 1
    then show ?thesis using utf8_char_1 by blast
  next
    case 2
    then show ?thesis using utf8_char_2 by blast
  next
    case 3
    then show ?thesis using utf8_char_3 by blast
  next
    case 4
    then show ?thesis using utf8_char_4 by blast
  qed
qed

lemma utf8_round_trip:
  "scalar_text s \<Longrightarrow> \<exists>bs. encode_utf8 s = Inr bs \<and> decode_utf8 bs = Inr s"
proof (induction s)
  case Nil
  then show ?case by simp
next
  case (Cons c s)
  then obtain bs where bs: "encode_utf8 s = Inr bs" "decode_utf8 bs = Inr s"
    by (auto simp: scalar_text_def)
  from Cons.prems obtain b where b: "utf8_char c = Inr b"
      "\<And>rest. decode_utf8 (b @ rest) = cons_e c (decode_utf8 rest)"
    using utf8_char_round_trip [of c] by (auto simp: scalar_text_def)
  show ?case using bs b by (simp add: bind_e_def cons_e_def)
qed


lemma index_of_nth:
  "distinct xs \<Longrightarrow> i < length xs \<Longrightarrow> index_of (xs ! i) xs = Some i"
proof (induction xs arbitrary: i)
  case Nil
  then show ?case by simp
next
  case (Cons x xs)
  show ?case
  proof (cases i)
    case 0
    then show ?thesis by simp
  next
    case (Suc j)
    with Cons.prems have "xs ! j \<in> set xs" "x \<notin> set xs" by auto
    then have "xs ! j \<noteq> x" by blast
    with Suc Cons show ?thesis by simp
  qed
qed

lemma b64_alphabet_distinct: "distinct b64_alphabet"
  by (simp add: b64_alphabet_def)

lemma b64_alphabet_length: "length b64_alphabet = 64"
  by (simp add: b64_alphabet_def)

lemma b64_alphabet_ascii: "\<forall>c \<in> set b64_alphabet. (of_char c :: nat) < 0x80 \<and> c \<noteq> CHR ''=''"
  by (simp add: b64_alphabet_def)

lemma b64_index_char: "i < 64 \<Longrightarrow> b64_index (b64_char i) = Some i"
  unfolding b64_index_def b64_char_def
  using index_of_nth [OF b64_alphabet_distinct, of i] by (simp add: b64_alphabet_length)

lemma b64_char_in: "b64_char i \<in> set b64_alphabet"
  unfolding b64_char_def by (rule nth_mem) (simp add: b64_alphabet_length)

lemma b64_char_not_pad: "b64_char i \<noteq> CHR ''=''"
  using b64_char_in b64_alphabet_ascii by blast

lemma byte_lt: "(of_char (a :: char) :: nat) < 256"
  by simp

lemma sextets:
  fixes x y z :: nat
  assumes "x < 256" and "y < 256" and "z < 256"
  shows "x div 4 < 64" and "x mod 4 * 16 + y div 16 < 64" and "y mod 16 * 4 + z div 64 < 64"
    and "z mod 64 < 64" and "x mod 4 * 16 < 64" and "y mod 16 * 4 < 64"
proof -
  have a: "x mod 4 < 4" "y mod 16 < 16" by simp_all
  have b: "y div 16 < 16" "z div 64 < 4" "x div 4 < 64"
    using assms by (simp_all add: less_mult_imp_div_less)
  show "x div 4 < 64" by (rule b)
  show "x mod 4 * 16 + y div 16 < 64" using a b by linarith
  show "y mod 16 * 4 + z div 64 < 64" using a b by linarith
  show "z mod 64 < 64" by simp
  show "x mod 4 * 16 < 64" using a by linarith
  show "y mod 16 * 4 < 64" using a by linarith
qed

lemma regroup:
  fixes x y z :: nat
  assumes "y < 256" and "z < 256"
  shows "x div 4 * 4 + (x mod 4 * 16 + y div 16) div 16 = x"
    and "(x mod 4 * 16 + y div 16) mod 16 * 16 + (y mod 16 * 4 + z div 64) div 4 = y"
    and "(y mod 16 * 4 + z div 64) mod 4 * 64 + z mod 64 = z"
    and "x div 4 * 4 + (x mod 4 * 16) div 16 = x"
    and "(x mod 4 * 16 + y div 16) mod 16 * 16 + (y mod 16 * 4) div 4 = y"
proof -
  have b: "y div 16 < 16" "z div 64 < 4"
    using assms by (simp_all add: less_mult_imp_div_less)
  have 1: "(x mod 4 * 16 + y div 16) div 16 = x mod 4" using b by simp
  have 2: "(x mod 4 * 16 + y div 16) mod 16 = y div 16" using b by simp
  have 3: "(y mod 16 * 4 + z div 64) div 4 = y mod 16" using b by simp
  have 4: "(y mod 16 * 4 + z div 64) mod 4 = z div 64" using b by simp
  show "x div 4 * 4 + (x mod 4 * 16 + y div 16) div 16 = x" unfolding 1 by simp
  show "(x mod 4 * 16 + y div 16) mod 16 * 16 + (y mod 16 * 4 + z div 64) div 4 = y"
    unfolding 2 3 by simp
  show "(y mod 16 * 4 + z div 64) mod 4 * 64 + z mod 64 = z" unfolding 4 by simp
  show "x div 4 * 4 + (x mod 4 * 16) div 16 = x" by simp
  show "(x mod 4 * 16 + y div 16) mod 16 * 16 + (y mod 16 * 4) div 4 = y" unfolding 2 by simp
qed

lemma b64decode_group:
  assumes "i < 64" and "j < 64" and "k < 64" and "l < 64"
  shows "b64decode (b64_char i # b64_char j # b64_char k # b64_char l # rest) =
           map_option (\<lambda>r. char_of (i * 4 + j div 16) # char_of (j mod 16 * 16 + k div 4) #
                               char_of (k mod 4 * 64 + l) # r) (b64decode rest)"
  using assms by (cases "b64decode rest") (simp_all add: b64_index_char b64_char_not_pad)

lemma b64decode_last2:
  assumes "i < 64" and "j < 64" and "k < 64"
  shows "b64decode [b64_char i, b64_char j, b64_char k, CHR ''=''] =
           Some [char_of (i * 4 + j div 16), char_of (j mod 16 * 16 + k div 4)]"
  using assms by (simp add: b64_index_char b64_char_not_pad)

lemma b64decode_last1:
  assumes "i < 64" and "j < 64"
  shows "b64decode [b64_char i, b64_char j, CHR ''='', CHR ''=''] =
           Some [char_of (i * 4 + j div 16)]"
  using assms by (simp add: b64_index_char)

lemma b64_round_trip: "b64decode (b64encode bs) = Some bs"
proof (induction bs rule: b64encode.induct)
  case 1
  show ?case by simp
next
  case (2 a)
  let ?x = "of_char a :: nat"
  have x: "?x < 256" by simp
  note s = sextets [OF x x x]
  note r = regroup [OF x x]
  have e: "b64encode [a] = [b64_char (?x div 4), b64_char (?x mod 4 * 16), CHR ''='', CHR ''='']"
    by (simp add: Let_def)
  show ?case
    unfolding e b64decode_last1 [OF s(1) s(5)] r(4) by simp
next
  case (3 a b)
  let ?x = "of_char a :: nat" and ?y = "of_char b :: nat"
  have x: "?x < 256" and y: "?y < 256" by simp_all
  note s = sextets [OF x y y]
  note r = regroup [OF y y]
  have e: "b64encode [a, b] =
      [b64_char (?x div 4), b64_char (?x mod 4 * 16 + ?y div 16), b64_char (?y mod 16 * 4),
       CHR ''='']"
    by (simp add: Let_def)
  show ?case
    unfolding e b64decode_last2 [OF s(1) s(2) s(6)] r(1) r(5) by simp
next
  case (4 a b c rest)
  let ?x = "of_char a :: nat" and ?y = "of_char b :: nat" and ?z = "of_char c :: nat"
  have x: "?x < 256" and y: "?y < 256" and z: "?z < 256" by simp_all
  note s = sextets [OF x y z]
  note r = regroup [OF y z]
  have e: "b64encode (a # b # c # rest) =
      b64_char (?x div 4) # b64_char (?x mod 4 * 16 + ?y div 16) #
      b64_char (?y mod 16 * 4 + ?z div 64) # b64_char (?z mod 64) # b64encode rest"
    by (simp add: Let_def)
  have ih: "b64decode (b64encode rest) = Some rest"
    using 4 by simp
  show ?case
    unfolding e b64decode_group [OF s(1) s(2) s(3) s(4)] r(1) r(2) r(3) ih by simp
qed

lemma b64encode_ascii: "\<forall>c \<in> set (b64encode bs). (of_char c :: nat) < 0x80"
proof (induction bs rule: b64encode.induct)
  case 1
  show ?case by simp
next
  case (2 a)
  show ?case using b64_char_in b64_alphabet_ascii by (auto simp: Let_def)
next
  case (3 a b)
  show ?case using b64_char_in b64_alphabet_ascii by (auto simp: Let_def)
next
  case (4 a b c rest)
  then show ?case using b64_char_in b64_alphabet_ascii by (auto simp: Let_def)
qed

lemma decode_utf8_ascii:
  "\<forall>c \<in> set bs. (of_char c :: nat) < 0x80 \<Longrightarrow> decode_utf8 bs = Inr (map of_char bs)"
  by (induction bs) (simp_all add: Let_def cons_e_def bind_e_def)

lemma ascii_bytes: "map char_of (map of_char (bs :: string) :: nat list) = bs"
  by (induction bs) simp_all

lemma link_payload_link:
  "link_payload (ascii ''[Download the HTML file]('' @ (ascii ''data:text/html;base64,'' @ s) @ ascii '')'')
     = Some s"
proof -
  let ?pre = "ascii ''[Download the HTML file](data:text/html;base64,''"
  have p: "ascii ''[Download the HTML file]('' @ (ascii ''data:text/html;base64,'' @ s) @ ascii '')''
      = ?pre @ s @ ascii '')''"
    by (simp add: ascii_def)
  have l: "length (ascii '')'') = 1" by (simp add: ascii_def)
  show ?thesis
    unfolding p link_payload_def Let_def
    by (simp add: l suffix_def)
qed

lemma download_link_doc:
  assumes "scalar_text doc"
  shows "\<exists>bytes. encode_utf8 doc = Inr bytes \<and> decode_utf8 bytes = Inr doc \<and>
           download_link doc =
             Inr (ascii ''[Download the HTML file]('' @
                  (ascii ''data:text/html;base64,'' @ map of_char (b64encode bytes)) @ ascii '')'')"
proof -
  from assms obtain bytes where b: "encode_utf8 doc = Inr bytes" "decode_utf8 bytes = Inr doc"
    using utf8_round_trip by blast
  have "decode_utf8 (b64encode bytes) = Inr (map of_char (b64encode bytes))"
    by (rule decode_utf8_ascii) (rule b64encode_ascii)
  with b show ?thesis
    by (simp add: download_link_def download_href_def bind_e_def)
qed

lemma scalar_text_append [simp]: "scalar_text (xs @ ys) = (scalar_text xs \<and> scalar_text ys)"
  by (simp add: scalar_text_def)

lemma scalar_text_Nil [simp]: "scalar_text []"
  by (simp add: scalar_text_def)

lemma scalar_text_Cons [simp]: "scalar_text (c # cs) = (scalar_value c \<and> scalar_text cs)"
  by (simp add: scalar_text_def)

lemma scalar_value_byte: "scalar_value (of_char (a :: char))"
proof -
  have "(of_char a :: nat) < 256" by simp
  then show ?thesis unfolding scalar_value_def by linarith
qed

lemma scalar_text_ascii [simp]: "scalar_text (ascii s)"
  by (induction s) (simp_all add: ascii_def scalar_value_byte scalar_text_def)

lemma scalar_text_str_int [simp]: "scalar_text (str_int i)"
  unfolding scalar_text_def list_all_iff
  using str_int_chars by (fastforce simp: scalar_value_def is_digit_def)

lemma scalar_text_md_js: "scalar_text md \<Longrightarrow> scalar_text (md_js md)"
  unfolding md_js_concat
  by (induction md)
    (auto simp: esc_def scalar_value_def bslash_def btick_def dollar_def)

lemma scalar_text_html_doc:
  assumes "scalar_text md" and "scalar_text (orientation cfg)"
  shows "scalar_text (html_doc cfg md)"
proof -
  have c: "scalar_value squote" "scalar_value bslash" "scalar_value 0x2022"
    by (simp_all add: scalar_value_def squote_def bslash_def)
  have segs: "scalar_text html_seg0" "scalar_text html_seg1" "scalar_text html_seg2"
    "scalar_text html_seg3" "scalar_text html_seg4" "scalar_text html_seg5"
    "scalar_text html_seg6" "scalar_text html_seg7" "scalar_text html_seg8"
    "scalar_text html_seg9" "scalar_text html_seg10" "scalar_text html_seg11"
    unfolding html_seg0_def html_seg1_def html_seg2_def html_seg3_def html_seg4_def
      html_seg5_def html_seg6_def html_seg7_def html_seg8_def html_seg9_def html_seg10_def
      html_seg11_def
    by (simp_all add: c)
  have r: "scalar_text (rule_css b)" for b
    by (simp add: rule_css_def)
  show ?thesis
    using assms by (simp add: html_doc_def segs r scalar_text_md_js)
qed

text \<open>
  C8. For every document assembled from a text of Unicode scalar values (the text a browser
  sends has no lone surrogates; on a surrogate \<open>encode\<close> raises): the download action
  yields a Markdown link whose target starts with the media type \<open>data:text/html;base64,\<close>;
  decoding the payload of the link from base64 gives the UTF-8 bytes of the document, and
  decoding these bytes gives the document itself.
\<close>

theorem download_round_trip:
  assumes "scalar_text md" and "scalar_text (orientation cfg)"
  shows "\<exists>link payload bytes.
           download_link (html_doc cfg md) = Inr link \<and>
           prefix (ascii ''[Download the HTML file](data:text/html;base64,'') link \<and>
           link_payload link = Some payload \<and>
           b64decode (map char_of payload) = Some bytes \<and>
           encode_utf8 (html_doc cfg md) = Inr bytes \<and>
           decode_utf8 bytes = Inr (html_doc cfg md)"
proof -
  have "scalar_text (html_doc cfg md)"
    using assms by (rule scalar_text_html_doc)
  then obtain bytes where b: "encode_utf8 (html_doc cfg md) = Inr bytes"
      "decode_utf8 bytes = Inr (html_doc cfg md)"
      "download_link (html_doc cfg md) =
         Inr (ascii ''[Download the HTML file]('' @
              (ascii ''data:text/html;base64,'' @ map of_char (b64encode bytes)) @ ascii '')'')"
    using download_link_doc by blast
  let ?link = "ascii ''[Download the HTML file]('' @
              (ascii ''data:text/html;base64,'' @ map of_char (b64encode bytes)) @ ascii '')''"
  have p: "link_payload ?link = Some (map of_char (b64encode bytes))"
    by (rule link_payload_link)
  have q: "prefix (ascii ''[Download the HTML file](data:text/html;base64,'') ?link"
    by (simp add: ascii_def)
  have d: "b64decode (map char_of (map of_char (b64encode bytes) :: nat list)) = Some bytes"
    by (simp only: ascii_bytes b64_round_trip)
  from b p q d show ?thesis by blast
qed

theorem download_round_trip_witness:
  "scalar_text [0x2014] \<and> scalar_text (orientation (\<lparr>orientation = ascii ''portrait'', columns = 2, margin_mm = 12, gap_mm = 8,
      font_px = 11, show_guides = True, show_print_button = True\<rparr>)) \<and>
   (\<exists>link payload bytes.
      download_link (html_doc (\<lparr>orientation = ascii ''portrait'', columns = 2, margin_mm = 12, gap_mm = 8,
      font_px = 11, show_guides = True, show_print_button = True\<rparr>) [0x2014]) = Inr link \<and>
      link_payload link = Some payload \<and>
      b64decode (map char_of payload) = Some bytes \<and>
      decode_utf8 bytes = Inr (html_doc (\<lparr>orientation = ascii ''portrait'', columns = 2, margin_mm = 12, gap_mm = 8,
      font_px = 11, show_guides = True, show_print_button = True\<rparr>) [0x2014]))"
proof -
  have m: "scalar_text [0x2014]"
    by (simp add: scalar_text_def scalar_value_def)
  have o: "scalar_text (orientation (\<lparr>orientation = ascii ''portrait'', columns = 2, margin_mm = 12, gap_mm = 8,
      font_px = 11, show_guides = True, show_print_button = True\<rparr>))"
    by simp
  from download_round_trip [OF m o] m o show ?thesis by blast
qed

end
